theory Spec2Isabelle
  imports Main "HOL-Library.Option_ord" "HOL-Library.Multiset"
begin

section \<open>Strings and the regular expression of the product identifier\<close>

text \<open>
  The model follows \<^verbatim>\<open>src/app.py\<close>. Python strings are \<^typ>\<open>string\<close>,
  one \<^typ>\<open>char\<close> for each character, so that \<open>length\<close> is \<^verbatim>\<open>len\<close>;
  Python integers are \<^typ>\<open>int\<close>. A raised exception is a value of
  \<open>py_exception\<close>, returned on the left of a sum.
\<close>

datatype py_exception =
    HTTPError int          \<comment> \<open>\<^verbatim>\<open>requests.HTTPError\<close> of \<^verbatim>\<open>raise_for_status\<close>, with the status code\<close>
  | TransportError string  \<comment> \<open>any other \<^verbatim>\<open>requests.RequestException\<close> of \<^verbatim>\<open>session.get\<close>\<close>
  | ValueError string      \<comment> \<open>\<^verbatim>\<open>urljoin\<close> on a malformed reference\<close>
  | AttributeError         \<comment> \<open>\<^verbatim>\<open>None.content\<close>\<close>
  | ForeignKeyViolation    \<comment> \<open>\<^verbatim>\<open>psycopg2\<close>: insert of a product whose category is absent\<close>

text \<open>The character class \<^verbatim>\<open>[A-Z0-9]\<close>.\<close>

definition asin_char :: "char \<Rightarrow> bool" where
  "asin_char c = (c \<in> set ''ABCDEFGHIJKLMNOPQRSTUVWXYZ0123456789'')"

text \<open>
  \<^verbatim>\<open>re.match(r'/dp/([A-Z0-9]{10})', s)\<close>: the pattern at the start of \<open>s\<close>;
  the result is group 1.
\<close>

definition asin_match_here :: "string \<Rightarrow> string option" where
  "asin_match_here s =
     (let g = take 10 (drop 4 s)
      in if take 4 s = ''/dp/'' \<and> length g = 10 \<and> list_all asin_char g
         then Some g else None)"

text \<open>
  \<^verbatim>\<open>re.search(r'/dp/([A-Z0-9]{10})', s)\<close>: the leftmost position where the
  pattern matches.
\<close>

fun asin_search :: "string \<Rightarrow> string option" where
  "asin_search [] = None"
| "asin_search (c # cs) =
     (case asin_match_here (c # cs) of
        Some g \<Rightarrow> Some g
      | None \<Rightarrow> asin_search cs)"

text \<open>
  \<^verbatim>\<open>
  def convert_to_affiliate_link(self, product_url, affiliate_tag="your-tag-20"):
      asin_match = re.search(r'/dp/([A-Z0-9]{10})', product_url)
      if asin_match:
          asin = asin_match.group(1)
          return f"https://www.amazon.com/dp/{asin}?tag={affiliate_tag}"
      return product_url
  \<close>
\<close>

definition default_affiliate_tag :: string where
  "default_affiliate_tag = ''your-tag-20''"

definition convert_to_affiliate_link :: "string \<Rightarrow> string \<Rightarrow> string" where
  "convert_to_affiliate_link product_url affiliate_tag =
     (case asin_search product_url of
        Some asin \<Rightarrow> ''https://www.amazon.com/dp/'' @ asin @ ''?tag='' @ affiliate_tag
      | None \<Rightarrow> product_url)"

text \<open>
  The specification's words for the identifier segment: \<^verbatim>\<open>/dp/\<close>, ten
  uppercase alphanumeric characters, and a closing slash. \<open>spec_dp_segment_here\<close>
  is that segment at the start of a string, \<open>spec_has_dp_segment\<close> is the segment
  anywhere in it.
\<close>

definition spec_dp_segment_here :: "string \<Rightarrow> bool" where
  "spec_dp_segment_here s =
     (take 4 s = ''/dp/'' \<and> length (take 10 (drop 4 s)) = 10 \<and>
      list_all asin_char (take 10 (drop 4 s)) \<and> take 1 (drop 14 s) = ''/'')"

fun spec_has_dp_segment :: "string \<Rightarrow> bool" where
  "spec_has_dp_segment [] = False"
| "spec_has_dp_segment (c # cs) = (spec_dp_segment_here (c # cs) \<or> spec_has_dp_segment cs)"

text \<open>
  What the code looks for: \<open>dp_occurrence url n asin\<close> says that \<open>url\<close> holds,
  at offset \<open>n\<close>, \<^verbatim>\<open>/dp/\<close> and right after it the ten identifier
  characters \<open>asin\<close>, whatever follows.
\<close>

definition dp_occurrence :: "string \<Rightarrow> nat \<Rightarrow> string \<Rightarrow> bool" where
  "dp_occurrence url n asin =
     (length asin = 10 \<and> list_all asin_char asin \<and>
      take 14 (drop n url) = ''/dp/'' @ asin)"


section \<open>The store\<close>

text \<open>
  The two tables of \<^verbatim>\<open>init_database\<close>. A \<^verbatim>\<open>TIMESTAMP\<close> is a number of
  microseconds; \<^verbatim>\<open>NULL\<close> is \<open>None\<close>. The value of \<^verbatim>\<open>NOW()\<close> is an
  argument of each operation that reads it. Failures of the connection itself are not
  modelled.
\<close>

type_synonym timestamp = int

record category_row =
  c_id :: int
  c_name :: string
  c_href :: string
  c_last_scraped :: "timestamp option"
  c_created_at :: timestamp

record product_row =
  p_id :: int
  p_category_id :: int
  p_title :: string
  p_affiliate_link :: string
  p_summary :: string
  p_rank :: int
  p_last_updated :: timestamp
  p_created_at :: timestamp

record database =
  categories :: "category_row list"
  products :: "product_row list"
  products_id_seq :: int  \<comment> \<open>the next value of the \<^verbatim>\<open>SERIAL\<close> column \<^verbatim>\<open>products.id\<close>\<close>

text \<open>The record that \<^verbatim>\<open>extract_product_info\<close> returns (a dictionary with four keys).\<close>

record product_info =
  title :: string
  url :: string
  summary :: string
  rank :: int

text \<open>\<^verbatim>\<open>enumerate(xs, start)\<close>.\<close>

fun py_enumerate :: "int \<Rightarrow> 'a list \<Rightarrow> (int \<times> 'a) list" where
  "py_enumerate start [] = []"
| "py_enumerate start (x # xs) = (start, x) # py_enumerate (start + 1) xs"

text \<open>\<^verbatim>\<open>SELECT * FROM categories WHERE id = %s\<close>, then \<^verbatim>\<open>fetchone()\<close>.\<close>

definition get_category_by_id :: "database \<Rightarrow> int \<Rightarrow> category_row option" where
  "get_category_by_id db category_id = find (\<lambda>c. c_id c = category_id) (categories db)"

text \<open>\<^verbatim>\<open>UPDATE categories SET last_scraped = NOW() WHERE id = %s\<close>.\<close>

definition update_category_scraped :: "database \<Rightarrow> int \<Rightarrow> timestamp \<Rightarrow> database" where
  "update_category_scraped db category_id now =
     db\<lparr>categories :=
          map (\<lambda>c. if c_id c = category_id then c\<lparr>c_last_scraped := Some now\<rparr> else c)
            (categories db)\<rparr>"

text \<open>\<^verbatim>\<open>DELETE FROM products WHERE category_id = %s\<close>.\<close>

definition delete_products :: "database \<Rightarrow> int \<Rightarrow> database" where
  "delete_products db category_id =
     db\<lparr>products := filter (\<lambda>p. p_category_id p \<noteq> category_id) (products db)\<rparr>"

text \<open>
  One \<^verbatim>\<open>INSERT INTO products (category_id, title, affiliate_link, summary, rank)\<close>.
  The column \<^verbatim>\<open>category_id\<close> references \<^verbatim>\<open>categories(id)\<close>, so the insert
  fails when no such category is stored. The rank stored is the argument \<open>rank\<close>; the
  key \<^verbatim>\<open>'rank'\<close> of the record is not read.
\<close>

definition insert_product :: "database \<Rightarrow> int \<Rightarrow> product_info \<Rightarrow> int \<Rightarrow> timestamp
    \<Rightarrow> py_exception + database" where
  "insert_product db category_id product rnk now =
     (if list_ex (\<lambda>c. c_id c = category_id) (categories db)
      then Inr (db\<lparr>products := products db @
                    [\<lparr>p_id = products_id_seq db, p_category_id = category_id,
                      p_title = title product, p_affiliate_link = url product,
                      p_summary = summary product, p_rank = rnk,
                      p_last_updated = now, p_created_at = now\<rparr>],
                  products_id_seq := products_id_seq db + 1\<rparr>)
      else Inl ForeignKeyViolation)"

text \<open>The loop \<^verbatim>\<open>for rank, product in enumerate(products, 1)\<close> of \<^verbatim>\<open>insert_products\<close>.\<close>

fun insert_loop :: "database \<Rightarrow> int \<Rightarrow> (int \<times> product_info) list \<Rightarrow> timestamp
    \<Rightarrow> py_exception + database" where
  "insert_loop db category_id [] now = Inr db"
| "insert_loop db category_id ((rnk, product) # rest) now =
     (case insert_product db category_id product rnk now of
        Inl e \<Rightarrow> Inl e
      | Inr db' \<Rightarrow> insert_loop db' category_id rest now)"

text \<open>
  \<^verbatim>\<open>
  def insert_products(self, category_id, products):
      with self.get_connection() as conn:
          with conn.cursor() as cur:
              cur.execute("DELETE FROM products WHERE category_id = %s", (category_id,))
              for rank, product in enumerate(products, 1):
                  cur.execute("INSERT INTO products ...", (..., rank))
              conn.commit()
  \<close>
  One transaction: the result is either the store after the delete and all the inserts
  (\<open>Inr\<close>), or the exception (\<open>Inl\<close>), and then the connection rolls back and the
  store is the one the caller had.
\<close>

definition insert_products :: "database \<Rightarrow> int \<Rightarrow> product_info list \<Rightarrow> timestamp
    \<Rightarrow> py_exception + database" where
  "insert_products db category_id prods now =
     insert_loop (delete_products db category_id) category_id (py_enumerate 1 prods) now"

text \<open>\<^verbatim>\<open>SELECT * FROM products WHERE category_id = %s ORDER BY rank\<close>.\<close>

definition get_products_by_category :: "database \<Rightarrow> int \<Rightarrow> product_row list" where
  "get_products_by_category db category_id =
     sort_key p_rank (filter (\<lambda>p. p_category_id p = category_id) (products db))"

text \<open>
  \<^verbatim>\<open>
  SELECT * FROM categories
  WHERE last_scraped IS NULL OR last_scraped < NOW() - INTERVAL '%s hours'
  ORDER BY last_scraped ASC NULLS FIRST
  \<close>
  The order on \<^typ>\<open>timestamp option\<close> puts \<open>None\<close> first. SQL leaves the order of
  rows with equal keys open; the model keeps them in table order.
\<close>

definition microseconds_per_hour :: int where
  "microseconds_per_hour = 3600000000"

definition needs_update :: "timestamp \<Rightarrow> int \<Rightarrow> category_row \<Rightarrow> bool" where
  "needs_update now hours_old c =
     (case c_last_scraped c of
        None \<Rightarrow> True
      | Some t \<Rightarrow> t < now - hours_old * microseconds_per_hour)"

definition get_categories_needing_update :: "database \<Rightarrow> timestamp \<Rightarrow> int \<Rightarrow> category_row list" where
  "get_categories_needing_update db now hours_old =
     sort_key c_last_scraped (filter (needs_update now hours_old) (categories db))"


section \<open>The fetcher\<close>

text \<open>
  A parsed page answers the two queries the extractor makes; a block (a tag of the
  page) answers the two queries \<^verbatim>\<open>extract_product_info\<close> makes.
  \<open>select_one_text b sel\<close> is \<^verbatim>\<open>b.select_one(sel).get_text(strip=True)\<close>, and
  \<open>None\<close> when \<^verbatim>\<open>select_one\<close> finds no element.
\<close>

record block =
  find_a_href :: "string option"  \<comment> \<open>\<^verbatim>\<open>find('a', href=True)\<close>, then \<^verbatim>\<open>['href']\<close>\<close>
  select_one_text :: "string \<Rightarrow> string option"

record page =
  select :: "string \<Rightarrow> block list"  \<comment> \<open>\<^verbatim>\<open>soup.select(selector)\<close>\<close>
  find_all_fallback :: "block list"
    \<comment> \<open>\<^verbatim>\<open>soup.find_all(['div', 'li'], class_=re.compile(r'.*item.*|.*product.*', re.I))\<close>\<close>

text \<open>
  A response carries its status code and its content; the content is identified with
  the page that \<^verbatim>\<open>BeautifulSoup(response.content, 'html.parser')\<close> makes of it.
\<close>

record response =
  status_code :: int
  content :: page

text \<open>What one \<^verbatim>\<open>session.get(url, timeout=15)\<close> does: it raises or it returns a response.\<close>

datatype http_result = Transport_failure string | Response response

text \<open>
  The network: the outcome of the \<open>n\<close>-th request (from 0) of one call of
  \<^verbatim>\<open>get_page\<close>, for the URL asked.
\<close>

type_synonym network = "nat \<Rightarrow> string \<Rightarrow> http_result"

text \<open>
  \<^verbatim>\<open>response.raise_for_status()\<close> of the \<^verbatim>\<open>requests\<close> library raises
  \<^verbatim>\<open>HTTPError\<close> for a status code from 400 to 599 and returns otherwise.
\<close>

definition raise_for_status :: "response \<Rightarrow> py_exception + unit" where
  "raise_for_status r =
     (if 400 \<le> status_code r \<and> status_code r < 600
      then Inl (HTTPError (status_code r)) else Inr ())"

text \<open>
  What the program does to the outside, in order: \<open>Sleep lo hi\<close> is
  \<^verbatim>\<open>time.sleep(random.uniform(lo, hi))\<close>, \<open>Get u\<close> is one HTTP request.
  Printing is not recorded.
\<close>

datatype event = Sleep int int | Get string

text \<open>The body of the \<^verbatim>\<open>try\<close> of \<^verbatim>\<open>get_page\<close>, after the sleep.\<close>

definition try_request :: "network \<Rightarrow> string \<Rightarrow> nat \<Rightarrow> py_exception + response" where
  "try_request net u attempt =
     (case net attempt u of
        Transport_failure msg \<Rightarrow> Inl (TransportError msg)
      | Response r \<Rightarrow>
          (case raise_for_status r of
             Inl e \<Rightarrow> Inl e
           | Inr _ \<Rightarrow> Inr r))"

text \<open>
  \<^verbatim>\<open>
  def get_page(self, url, retries=3):
      for attempt in range(retries):
          try:
              time.sleep(random.uniform(2, 5))
              response = self.session.get(url, timeout=15)
              response.raise_for_status()
              return response
          except requests.RequestException as e:
              if attempt == retries - 1:
                  raise
              time.sleep(random.uniform(3, 7))
  \<close>
  The loop runs over the list \<^verbatim>\<open>range(retries)\<close>. The result is the exception
  raised, or the value returned: \<open>Some\<close> response, or \<open>None\<close> when the loop ends
  without a \<^verbatim>\<open>return\<close>.
\<close>

fun get_page_loop :: "network \<Rightarrow> string \<Rightarrow> int \<Rightarrow> nat list
    \<Rightarrow> (py_exception + response option) \<times> event list" where
  "get_page_loop net u retries [] = (Inr None, [])"
| "get_page_loop net u retries (attempt # rest) =
     (case try_request net u attempt of
        Inr r \<Rightarrow> (Inr (Some r), [Sleep 2 5, Get u])
      | Inl e \<Rightarrow>
          if int attempt = retries - 1 then (Inl e, [Sleep 2 5, Get u])
          else (case get_page_loop net u retries rest of
                  (res, evs) \<Rightarrow> (res, [Sleep 2 5, Get u, Sleep 3 7] @ evs)))"

definition get_page :: "network \<Rightarrow> string \<Rightarrow> int \<Rightarrow> (py_exception + response option) \<times> event list" where
  "get_page net u retries = get_page_loop net u retries [0..<nat retries]"

section \<open>The extractor\<close>

text \<open>
  \<^verbatim>\<open>urljoin\<close> of \<^verbatim>\<open>urllib.parse\<close> is an argument of the model: it
  returns the joined URL or raises.
\<close>

type_synonym urljoin_fn = "string \<Rightarrow> string \<Rightarrow> py_exception + string"

definition base_url :: string where
  "base_url = ''https://www.amazon.com''"

definition no_title :: string where
  "no_title = ''No title available''"

definition no_description :: string where
  "no_description = ''No description available''"

definition title_selectors :: "string list" where
  \<open>title_selectors =
     [''h2'', ''span[class*="title"]'', ''.s-title-instructions-style'',
      ''a[class*="title"]'', ''.a-text-normal'']\<close>

definition desc_selectors :: "string list" where
  \<open>desc_selectors =
     [''.a-size-small'', ''.a-color-secondary'',
      ''span[class*="review"]'', ''span[class*="rating"]'',
      ''.a-text-subtle'']\<close>

definition product_selectors :: "string list" where
  \<open>product_selectors =
     [''li[id^="zg-ordered-list"]'', ''.zg-item-immersion'',
      ''div[data-component-type="s-search-result"]'', ''.s-result-item'',
      ''li[class*="zg-item"]'']\<close>

text \<open>
  The title loop. The variable \<^verbatim>\<open>title\<close> is assigned the text of every element
  found, before the test that ends the loop:
  \<^verbatim>\<open>
  title = "No title available"
  for selector in title_selectors:
      title_elem = product_element.select_one(selector)
      if title_elem:
          title = title_elem.get_text(strip=True)
          if title and len(title) > 3:
              break
  \<close>
\<close>

fun title_loop :: "block \<Rightarrow> string \<Rightarrow> string list \<Rightarrow> string" where
  "title_loop b ttl [] = ttl"
| "title_loop b ttl (selector # rest) =
     (case select_one_text b selector of
        None \<Rightarrow> title_loop b ttl rest
      | Some t \<Rightarrow> if t \<noteq> [] \<and> length t > 3 then t else title_loop b t rest)"

text \<open>\<^verbatim>\<open>str.lower()\<close> on the letters that matter for the word looked for, and \<^verbatim>\<open>in\<close>.\<close>

definition lower_char :: "char \<Rightarrow> char" where
  "lower_char c =
     (case map_of (zip ''ABCDEFGHIJKLMNOPQRSTUVWXYZ'' ''abcdefghijklmnopqrstuvwxyz'') c of
        Some l \<Rightarrow> l
      | None \<Rightarrow> c)"

definition py_lower :: "string \<Rightarrow> string" where
  "py_lower s = map lower_char s"

fun py_in :: "string \<Rightarrow> string \<Rightarrow> bool" where
  "py_in needle [] = (needle = [])"
| "py_in needle (c # cs) = (take (length needle) (c # cs) = needle \<or> py_in needle cs)"

text \<open>
  The summary loop:
  \<^verbatim>\<open>
  summary = "No description available"
  for selector in desc_selectors:
      desc_elem = product_element.select_one(selector)
      if desc_elem:
          desc_text = desc_elem.get_text(strip=True)
          if desc_text and len(desc_text) > 10 and 'stars' not in desc_text.lower():
              summary = desc_text[:200] + "..." if len(desc_text) > 200 else desc_text
              break
  \<close>
\<close>

fun summary_loop :: "block \<Rightarrow> string \<Rightarrow> string list \<Rightarrow> string" where
  "summary_loop b smry [] = smry"
| "summary_loop b smry (selector # rest) =
     (case select_one_text b selector of
        None \<Rightarrow> summary_loop b smry rest
      | Some desc_text \<Rightarrow>
          if desc_text \<noteq> [] \<and> length desc_text > 10 \<and> \<not> py_in ''stars'' (py_lower desc_text)
          then (if length desc_text > 200 then take 200 desc_text @ ''...'' else desc_text)
          else summary_loop b smry rest)"

text \<open>
  \<^verbatim>\<open>extract_product_info(product_element, rank)\<close>: \<open>None\<close> when the block has no
  anchor, and \<open>None\<close> when an exception is caught (only \<^verbatim>\<open>urljoin\<close> can raise).
\<close>

definition extract_product_info :: "urljoin_fn \<Rightarrow> block \<Rightarrow> int \<Rightarrow> product_info option" where
  "extract_product_info urljoin product_element rnk =
     (case find_a_href product_element of
        None \<Rightarrow> None
      | Some href \<Rightarrow>
          (case urljoin base_url href of
             Inl e \<Rightarrow> None
           | Inr product_url \<Rightarrow>
               Some \<lparr>title = title_loop product_element no_title title_selectors,
                     url = convert_to_affiliate_link product_url default_affiliate_tag,
                     summary = summary_loop product_element no_description desc_selectors,
                     rank = rnk\<rparr>))"

text \<open>The slice \<^verbatim>\<open>xs[:limit]\<close>; a negative limit counts from the end.\<close>

definition py_slice_to :: "int \<Rightarrow> 'a list \<Rightarrow> 'a list" where
  "py_slice_to limit xs =
     (if 0 \<le> limit then take (nat limit) xs else take (length xs - nat (- limit)) xs)"

text \<open>
  \<^verbatim>\<open>
  product_elements = []
  for selector in product_selectors:
      elements = soup.select(selector)
      if elements:
          product_elements = elements[:limit]
          break
  \<close>
\<close>

fun select_loop :: "page \<Rightarrow> int \<Rightarrow> string list \<Rightarrow> block list" where
  "select_loop soup limit [] = []"
| "select_loop soup limit (selector # rest) =
     (let elements = select soup selector
      in if elements \<noteq> [] then py_slice_to limit elements else select_loop soup limit rest)"

text \<open>The blocks the extractor works on: the loop above, then the fallback scan.\<close>

definition locate_product_elements :: "page \<Rightarrow> int \<Rightarrow> block list" where
  "locate_product_elements soup limit =
     (let product_elements = select_loop soup limit product_selectors
      in if product_elements = [] then py_slice_to limit (find_all_fallback soup)
         else product_elements)"

text \<open>
  \<^verbatim>\<open>
  for i, element in enumerate(product_elements):
      product_info = self.extract_product_info(element, i + 1)
      if product_info and product_info['title'] != "No title available":
          products.append(product_info)
      if len(products) >= limit:
          break
  \<close>
\<close>

fun collect_loop :: "urljoin_fn \<Rightarrow> int \<Rightarrow> product_info list \<Rightarrow> (int \<times> block) list
    \<Rightarrow> product_info list" where
  "collect_loop urljoin limit prods [] = prods"
| "collect_loop urljoin limit prods ((i, element) # rest) =
     (let prods' =
        (case extract_product_info urljoin element (i + 1) of
           None \<Rightarrow> prods
         | Some product_info \<Rightarrow>
             if title product_info \<noteq> no_title then prods @ [product_info] else prods)
      in if limit \<le> int (length prods') then prods'
         else collect_loop urljoin limit prods' rest)"

definition collect_products :: "urljoin_fn \<Rightarrow> int \<Rightarrow> block list \<Rightarrow> product_info list" where
  "collect_products urljoin limit product_elements =
     collect_loop urljoin limit [] (py_enumerate 0 product_elements)"

text \<open>
  \<^verbatim>\<open>scrape_category_products(category_href, limit=10)\<close>. Every exception of the body
  is caught and the result is then the empty list. The events of the call are returned
  with the records.
\<close>

definition scrape_category_products :: "urljoin_fn \<Rightarrow> network \<Rightarrow> string \<Rightarrow> int
    \<Rightarrow> product_info list \<times> event list" where
  "scrape_category_products urljoin net category_href limit =
     (case urljoin base_url category_href of
        Inl e \<Rightarrow> ([], [])
      | Inr full_url \<Rightarrow>
          (case get_page net full_url 3 of
             (Inl e, evs) \<Rightarrow> ([], evs)
           | (Inr None, evs) \<Rightarrow> ([], evs)
           | (Inr (Some resp), evs) \<Rightarrow>
               (collect_products urljoin limit
                  (locate_product_elements (content resp) limit), evs)))"

section \<open>Scrape and store\<close>

text \<open>
  \<^verbatim>\<open>
  def scrape_and_store_category(self, category_id):
      category = self.db.get_category_by_id(category_id)
      if not category:
          return False
      products = self.scrape_category_products(category['href'])
      if products:
          self.db.insert_products(category_id, products)
          self.db.update_category_scraped(category_id)
          return True
      return False
  \<close>
  The result is the value returned (or the exception), the store afterwards and the
  events. \<open>t_insert\<close> and \<open>t_stamp\<close> are \<^verbatim>\<open>NOW()\<close> in the two transactions.
\<close>

definition scrape_and_store_category :: "urljoin_fn \<Rightarrow> network \<Rightarrow> database \<Rightarrow> int
    \<Rightarrow> timestamp \<Rightarrow> timestamp \<Rightarrow> (py_exception + bool) \<times> database \<times> event list" where
  "scrape_and_store_category urljoin net db category_id t_insert t_stamp =
     (case get_category_by_id db category_id of
        None \<Rightarrow> (Inr False, db, [])
      | Some category \<Rightarrow>
          (case scrape_category_products urljoin net (c_href category) 10 of
             (prods, evs) \<Rightarrow>
               if prods \<noteq> [] then
                 (case insert_products db category_id prods t_insert of
                    Inl e \<Rightarrow> (Inl e, db, evs)
                  | Inr db' \<Rightarrow> (Inr True, update_category_scraped db' category_id t_stamp, evs))
               else (Inr False, db, evs)))"


section \<open>Candidates and what the extractor accepts\<close>

text \<open>
  The candidates of a field are the texts of the elements its selectors find, in the
  order of the selector list; a selector that finds no element gives no candidate.
\<close>

definition title_candidates :: "block \<Rightarrow> string list" where
  "title_candidates b = List.map_filter (select_one_text b) title_selectors"

definition summary_candidates :: "block \<Rightarrow> string list" where
  "summary_candidates b = List.map_filter (select_one_text b) desc_selectors"

text \<open>The specification's words: a title candidate is accepted when its text is
  non-empty and longer than 3 characters.\<close>

definition spec_title_accepts :: "string \<Rightarrow> bool" where
  "spec_title_accepts t = (t \<noteq> [] \<and> 3 < length t)"

text \<open>The specification's words: the text contains the substring \<^verbatim>\<open>stars\<close> in some
  letter case.\<close>

definition spec_mentions_stars :: "string \<Rightarrow> bool" where
  "spec_mentions_stars t = (\<exists>pre w post. t = pre @ w @ post \<and> map lower_char w = ''stars'')"

text \<open>The specification's words: a summary candidate is accepted when its text is longer
  than 10 characters and does not mention \<^verbatim>\<open>stars\<close>.\<close>

definition spec_summary_accepts :: "string \<Rightarrow> bool" where
  "spec_summary_accepts t = (10 < length t \<and> \<not> spec_mentions_stars t)"

text \<open>
  The record that the block at index \<open>i\<close> (from 0) of the located blocks adds to the
  result, if any: the test of the collecting loop on \<^verbatim>\<open>extract_product_info(element, i + 1)\<close>.
\<close>

definition accepted_record :: "urljoin_fn \<Rightarrow> int \<times> block \<Rightarrow> product_info option" where
  "accepted_record urljoin ib =
     (case extract_product_info urljoin (snd ib) (fst ib + 1) of
        None \<Rightarrow> None
      | Some product_info \<Rightarrow>
          if title product_info \<noteq> no_title then Some product_info else None)"

text \<open>An optional record as the list of the records it adds.\<close>

fun option_list :: "'a option \<Rightarrow> 'a list" where
  "option_list None = []"
| "option_list (Some x) = [x]"

section \<open>Concrete inputs\<close>

text \<open>
  A concrete \<^verbatim>\<open>urljoin\<close> for the examples. It agrees with the library on the
  references the examples use: an absolute path is appended to the base, and the
  reference \<^verbatim>\<open>//[\<close> raises \<^verbatim>\<open>ValueError('Invalid IPv6 URL')\<close>.
\<close>

definition example_urljoin :: urljoin_fn where
  "example_urljoin base ref =
     (if ref = ''//['' then Inl (ValueError ''Invalid IPv6 URL'') else Inr (base @ ref))"

text \<open>Blocks: a complete one, one with no anchor, one whose anchor makes \<^verbatim>\<open>urljoin\<close> raise,
  and one whose only title element holds two characters.\<close>

definition mouse_block :: block where
  "mouse_block =
     \<lparr>find_a_href = Some ''/dp/B08N5WRWNW/ref=zg_bs'',
      select_one_text =
        (\<lambda>sel. if sel = ''h2'' then Some ''Wireless Mouse''
               else if sel = ''.a-size-small'' then Some ''4.5 out of 5 Stars''
               else if sel = ''.a-color-secondary'' then Some ''Ergonomic mouse with USB receiver''
               else None)\<rparr>"

definition lamp_block :: block where
  "lamp_block =
     \<lparr>find_a_href = Some ''/dp/B07XJ8C8F5'',
      select_one_text = (\<lambda>sel. if sel = ''h2'' then Some ''Desk Lamp'' else None)\<rparr>"

definition anchorless_block :: block where
  "anchorless_block =
     \<lparr>find_a_href = None,
      select_one_text = (\<lambda>sel. if sel = ''h2'' then Some ''Sponsored banner'' else None)\<rparr>"


definition short_title_block :: block where
  "short_title_block =
     \<lparr>find_a_href = Some ''/dp/B000000001'',
      select_one_text = (\<lambda>sel. if sel = ''h2'' then Some ''ab'' else None)\<rparr>"

text \<open>A block whose first summary candidate is \<open>n\<close> times the letter x.\<close>

definition long_block :: "nat \<Rightarrow> block" where
  "long_block n =
     \<lparr>find_a_href = Some ''/dp/B000000002'',
      select_one_text =
        (\<lambda>sel. if sel = ''h2'' then Some ''Long description''
               else if sel = ''.a-size-small'' then Some (replicate n CHR ''x'')
               else None)\<rparr>"

text \<open>A page whose blocks are found by the selector \<^verbatim>\<open>.zg-item-immersion\<close> only.\<close>

definition page_of :: "block list \<Rightarrow> page" where
  "page_of blocks =
     \<lparr>select = (\<lambda>sel. if sel = ''.zg-item-immersion'' then blocks else []),
      find_all_fallback = []\<rparr>"

text \<open>Networks: one that answers every request with a given status and page, and one
  that never answers.\<close>

definition net_status :: "int \<Rightarrow> page \<Rightarrow> network" where
  "net_status code pg = (\<lambda>n u. Response \<lparr>status_code = code, content = pg\<rparr>)"



text \<open>A store with two categories and three products of the first.\<close>

definition books :: category_row where
  "books = \<lparr>c_id = 1, c_name = ''Books'', c_href = ''/Best-Sellers-Books/zgbs/books'',
            c_last_scraped = Some 1000, c_created_at = 10\<rparr>"

definition toys :: category_row where
  "toys = \<lparr>c_id = 2, c_name = ''Toys'', c_href = ''/Best-Sellers-Toys/zgbs/toys'',
           c_last_scraped = None, c_created_at = 20\<rparr>"

definition old_row :: "int \<Rightarrow> int \<Rightarrow> int \<Rightarrow> product_row" where
  "old_row i cid r =
     \<lparr>p_id = i, p_category_id = cid, p_title = ''Old title'', p_affiliate_link = ''https://old'',
      p_summary = ''Old summary'', p_rank = r, p_last_updated = 1000, p_created_at = 1000\<rparr>"

definition example_db :: database where
  "example_db =
     \<lparr>categories = [books, toys],
      products = [old_row 1 1 1, old_row 2 2 1, old_row 3 1 2, old_row 4 1 3],
      products_id_seq = 5\<rparr>"

text \<open>Two records as the extractor returns them; their ranks are not 1 and 2.\<close>

definition mouse_info :: product_info where
  "mouse_info = \<lparr>title = ''Wireless Mouse'',
      url = ''https://www.amazon.com/dp/B08N5WRWNW?tag=your-tag-20'',
      summary = ''Ergonomic mouse with USB receiver'', rank = 2\<rparr>"

definition lamp_info :: product_info where
  "lamp_info = \<lparr>title = ''Desk Lamp'',
      url = ''https://www.amazon.com/dp/B07XJ8C8F5?tag=your-tag-20'',
      summary = ''No description available'', rank = 3\<rparr>"

section \<open>Properties: affiliate links\<close>

lemma match_here_iff: "asin_match_here s = Some g \<longleftrightarrow> dp_occurrence s 0 g"
proof -
  have t: "take 14 s = take 4 s @ take 10 (drop 4 s)"
    using take_add [of 4 10 s] by simp
  show ?thesis
  proof
    assume "asin_match_here s = Some g"
    then show "dp_occurrence s 0 g"
      by (auto simp: asin_match_here_def dp_occurrence_def Let_def t split: if_splits)
  next
    assume a: "dp_occurrence s 0 g"
    then have e: "take 4 s @ take 10 (drop 4 s) = ''/dp/'' @ g" and l: "length g = 10"
      and c: "list_all asin_char g"
      by (simp_all add: dp_occurrence_def t)
    have l4: "length (take 4 s) = length ''/dp/''"
    proof -
      have "length (take 4 s @ take 10 (drop 4 s)) = 14" using e l by simp
      then show ?thesis by (simp add: min_def split: if_splits)
    qed
    from e l4 have "take 4 s = ''/dp/'' \<and> take 10 (drop 4 s) = g"
      by (metis append_eq_append_conv)
    with l c show "asin_match_here s = Some g"
      by (simp add: asin_match_here_def Let_def)
  qed
qed

lemma dp_occurrence_Suc: "dp_occurrence (c # cs) (Suc n) g = dp_occurrence cs n g"
  by (simp add: dp_occurrence_def)

lemma asin_search_None: "asin_search u = None \<Longrightarrow> \<not> dp_occurrence u n g"
proof (induction u arbitrary: n)
  case Nil
  then show ?case by (simp add: dp_occurrence_def)
next
  case (Cons c cs)
  from Cons.prems have m: "asin_match_here (c # cs) = None" and s: "asin_search cs = None"
    by (simp_all split: option.splits)
  show ?case
  proof (cases n)
    case 0
    with m show ?thesis using match_here_iff [of "c # cs" g] by simp
  next
    case (Suc k)
    with Cons.IH [OF s, of k] show ?thesis by (simp add: dp_occurrence_Suc)
  qed
qed

lemma asin_search_Some:
  "asin_search u = Some g \<Longrightarrow>
     \<exists>n. dp_occurrence u n g \<and> (\<forall>m a. dp_occurrence u m a \<longrightarrow> n \<le> m)"
proof (induction u)
  case Nil
  then show ?case by simp
next
  case (Cons c cs)
  show ?case
  proof (cases "asin_match_here (c # cs)")
    case (Some h)
    with Cons.prems have "h = g" by simp
    with Some have "dp_occurrence (c # cs) 0 g" by (simp add: match_here_iff)
    then show ?thesis by blast
  next
    case None
    with Cons.prems have "asin_search cs = Some g" by simp
    from Cons.IH [OF this] obtain n where n: "dp_occurrence cs n g"
      and least: "\<forall>m a. dp_occurrence cs m a \<longrightarrow> n \<le> m" by blast
    have "dp_occurrence (c # cs) (Suc n) g" using n by (simp add: dp_occurrence_Suc)
    moreover have "\<forall>m a. dp_occurrence (c # cs) m a \<longrightarrow> Suc n \<le> m"
    proof (intro allI impI)
      fix m a assume o: "dp_occurrence (c # cs) m a"
      show "Suc n \<le> m"
      proof (cases m)
        case 0
        with o None show ?thesis using match_here_iff [of "c # cs" a] by simp
      next
        case (Suc k)
        with o have "dp_occurrence cs k a" by (simp add: dp_occurrence_Suc)
        with least have "n \<le> k" by blast
        with Suc show ?thesis by simp
      qed
    qed
    ultimately show ?thesis by blast
  qed
qed

lemma dp_occurrence_unique: "dp_occurrence u n a \<Longrightarrow> dp_occurrence u n b \<Longrightarrow> a = b"
  by (simp add: dp_occurrence_def)

lemma has_segment_occurrence:
  "spec_has_dp_segment u \<Longrightarrow> \<exists>n a. dp_occurrence u n a"
proof (induction u)
  case Nil
  then show ?case by simp
next
  case (Cons c cs)
  show ?case
  proof (cases "spec_dp_segment_here (c # cs)")
    case True
    then have "asin_match_here (c # cs) = Some (take 10 (drop 4 (c # cs)))"
      by (simp add: spec_dp_segment_here_def asin_match_here_def Let_def)
    then show ?thesis using match_here_iff by blast
  next
    case False
    with Cons.prems have "spec_has_dp_segment cs" by simp
    from Cons.IH [OF this] obtain n a where "dp_occurrence cs n a" by blast
    then have "dp_occurrence (c # cs) (Suc n) a" by (simp add: dp_occurrence_Suc)
    then show ?thesis by blast
  qed
qed

lemma dp_occurrence_drop: "dp_occurrence u n a \<longleftrightarrow> asin_match_here (drop n u) = Some a"
  by (simp add: match_here_iff dp_occurrence_def)


text \<open>
  Claim C4, as the code has it. \<^verbatim>\<open>convert_to_affiliate_link\<close> rewrites a URL
  that holds \<^verbatim>\<open>/dp/\<close> followed by ten uppercase alphanumeric characters, with or
  without a slash after them, into
  \<^verbatim>\<open>https://www.amazon.com/dp/<id>?tag=<tag>\<close>, where the identifier is the one of
  the leftmost such occurrence; a URL with no such occurrence is returned unchanged. In
  particular a URL with the slash-closed segment of the specification is rewritten.
\<close>

theorem convert_to_affiliate_link_leftmost:
  "(dp_occurrence u n asin \<and> (\<forall>m a. dp_occurrence u m a \<longrightarrow> n \<le> m) \<longrightarrow>
      convert_to_affiliate_link u tag = ''https://www.amazon.com/dp/'' @ asin @ ''?tag='' @ tag) \<and>
   ((\<forall>m a. \<not> dp_occurrence u m a) \<longrightarrow> convert_to_affiliate_link u tag = u) \<and>
   (spec_has_dp_segment u \<longrightarrow>
      (\<exists>a. length a = 10 \<and> list_all asin_char a \<and>
         convert_to_affiliate_link u tag = ''https://www.amazon.com/dp/'' @ a @ ''?tag='' @ tag))"
proof (intro conjI impI)
  assume h: "dp_occurrence u n asin \<and> (\<forall>m a. dp_occurrence u m a \<longrightarrow> n \<le> m)"
  then obtain g where g: "asin_search u = Some g"
    using asin_search_None [of u n asin] by (cases "asin_search u") auto
  from asin_search_Some [OF g] obtain k where k: "dp_occurrence u k g"
    and least: "\<forall>m a. dp_occurrence u m a \<longrightarrow> k \<le> m" by blast
  from h k least have "k = n" by (meson le_antisym)
  with k h have "g = asin" using dp_occurrence_unique by blast
  with g show "convert_to_affiliate_link u tag = ''https://www.amazon.com/dp/'' @ asin @ ''?tag='' @ tag"
    by (simp add: convert_to_affiliate_link_def)
next
  assume "\<forall>m a. \<not> dp_occurrence u m a"
  then have "asin_search u = None"
    using asin_search_Some [of u] by (cases "asin_search u") auto
  then show "convert_to_affiliate_link u tag = u"
    by (simp add: convert_to_affiliate_link_def)
next
  assume "spec_has_dp_segment u"
  from has_segment_occurrence [OF this] obtain n a where "dp_occurrence u n a" by blast
  then obtain g where g: "asin_search u = Some g"
    using asin_search_None [of u n a] by (cases "asin_search u") auto
  from asin_search_Some [OF g] obtain k where "dp_occurrence u k g" by blast
  then have "length g = 10 \<and> list_all asin_char g" by (simp add: dp_occurrence_def)
  with g show "\<exists>a. length a = 10 \<and> list_all asin_char a \<and>
         convert_to_affiliate_link u tag = ''https://www.amazon.com/dp/'' @ a @ ''?tag='' @ tag"
    by (simp add: convert_to_affiliate_link_def)
qed

theorem convert_to_affiliate_link_witness:
  "dp_occurrence ''https://www.amazon.com/dp/B08N5WRWNW/ref=zg_bs'' 22 ''B08N5WRWNW'' \<and>
   convert_to_affiliate_link ''https://www.amazon.com/dp/B08N5WRWNW/ref=zg_bs'' ''your-tag-20''
     = ''https://www.amazon.com/dp/B08N5WRWNW?tag=your-tag-20'' \<and>
   convert_to_affiliate_link ''https://www.amazon.com/gp/help'' ''your-tag-20''
     = ''https://www.amazon.com/gp/help''"
proof -
  let ?w = "''https://www.amazon.com/dp/B08N5WRWNW/ref=zg_bs''"
  let ?v = "''https://www.amazon.com/gp/help''"
  have occ: "dp_occurrence ?w 22 ''B08N5WRWNW''"
    by (simp add: dp_occurrence_def asin_char_def)
  have none: "\<forall>m<22. asin_match_here (drop m ?w) = None"
    by (simp add: asin_match_here_def All_less_Suc numeral_eq_Suc)
  have least: "\<forall>m a. dp_occurrence ?w m a \<longrightarrow> 22 \<le> m"
  proof (intro allI impI)
    fix m a assume "dp_occurrence ?w m a"
    then have "asin_match_here (drop m ?w) = Some a" by (simp only: dp_occurrence_drop)
    with none show "22 \<le> m" by (cases "m < 22") auto
  qed
  have "asin_search ?v = None"
    by (simp add: asin_match_here_def)
  then have absent: "\<forall>m a. \<not> dp_occurrence ?v m a"
    using asin_search_None by blast
  from convert_to_affiliate_link_leftmost [of ?w 22 "''B08N5WRWNW''" "''your-tag-20''"] occ least
  have a: "convert_to_affiliate_link ?w ''your-tag-20''
     = ''https://www.amazon.com/dp/'' @ ''B08N5WRWNW'' @ ''?tag='' @ ''your-tag-20''"
    by blast
  from convert_to_affiliate_link_leftmost [of ?v _ _ "''your-tag-20''"] absent
  have b: "convert_to_affiliate_link ?v ''your-tag-20'' = ?v"
    by blast
  from occ a b show ?thesis by simp
qed

text \<open>
  The claim as the specification words it fails: a URL that ends with the identifier has
  no segment \<^verbatim>\<open>/dp/<id>/\<close>, and is rewritten all the same.
\<close>

theorem convert_to_affiliate_link_no_slash_counterexample:
  "\<not> spec_has_dp_segment ''https://www.amazon.com/dp/B08N5WRWNW'' \<and>
   convert_to_affiliate_link ''https://www.amazon.com/dp/B08N5WRWNW'' ''your-tag-20''
     = ''https://www.amazon.com/dp/B08N5WRWNW?tag=your-tag-20'' \<and>
   convert_to_affiliate_link ''https://www.amazon.com/dp/B08N5WRWNW'' ''your-tag-20''
     \<noteq> ''https://www.amazon.com/dp/B08N5WRWNW''"
  by (simp add: spec_dp_segment_here_def convert_to_affiliate_link_def asin_match_here_def
      asin_char_def)


section \<open>Properties: the store\<close>

lemma fst_py_enumerate: "map fst (py_enumerate k xs) = [k..k + int (length xs) - 1]"
proof (induction xs arbitrary: k)
  case Nil
  then show ?case by simp
next
  case (Cons x xs)
  have "[k..k + int (length (x # xs)) - 1] = k # [k + 1..k + 1 + int (length xs) - 1]"
    by (simp add: upto_rec1)
  with Cons.IH [of "k + 1"] show ?case by simp
qed

lemma snd_py_enumerate: "map snd (py_enumerate k xs) = xs"
  by (induction xs arbitrary: k) simp_all


lemma insert_loop_rows:
  "insert_loop db cid ips now = Inr db' \<Longrightarrow>
     categories db' = categories db \<and>
     (\<exists>rows. products db' = products db @ rows \<and>
        map p_rank rows = map fst ips \<and>
        map p_title rows = map (title \<circ> snd) ips \<and>
        map p_affiliate_link rows = map (url \<circ> snd) ips \<and>
        map p_summary rows = map (summary \<circ> snd) ips \<and>
        map p_category_id rows = replicate (length ips) cid)"
proof (induction ips arbitrary: db)
  case Nil
  then show ?case by simp
next
  case (Cons ip ips)
  obtain rnk product where ip: "ip = (rnk, product)" by (cases ip)
  from Cons.prems ip obtain db1 where
    one: "insert_product db cid product rnk now = Inr db1"
    and rest: "insert_loop db1 cid ips now = Inr db'"
    by (auto split: sum.splits)
  from one have c1: "categories db1 = categories db"
    and p1: "products db1 = products db @
       [\<lparr>p_id = products_id_seq db, p_category_id = cid,
         p_title = title product, p_affiliate_link = url product,
         p_summary = summary product, p_rank = rnk,
         p_last_updated = now, p_created_at = now\<rparr>]"
    by (auto simp: insert_product_def split: if_splits)
  from Cons.IH [OF rest] obtain rows where
    c: "categories db' = categories db1" and
    r: "products db' = products db1 @ rows"
       "map p_rank rows = map fst ips"
       "map p_title rows = map (title \<circ> snd) ips"
       "map p_affiliate_link rows = map (url \<circ> snd) ips"
       "map p_summary rows = map (summary \<circ> snd) ips"
       "map p_category_id rows = replicate (length ips) cid"
    by blast
  let ?row = "\<lparr>p_id = products_id_seq db, p_category_id = cid,
         p_title = title product, p_affiliate_link = url product,
         p_summary = summary product, p_rank = rnk,
         p_last_updated = now, p_created_at = now\<rparr>"
  have "products db' = products db @ (?row # rows) \<and>
        map p_rank (?row # rows) = map fst (ip # ips) \<and>
        map p_title (?row # rows) = map (title \<circ> snd) (ip # ips) \<and>
        map p_affiliate_link (?row # rows) = map (url \<circ> snd) (ip # ips) \<and>
        map p_summary (?row # rows) = map (summary \<circ> snd) (ip # ips) \<and>
        map p_category_id (?row # rows) = replicate (length (ip # ips)) cid"
    using r p1 ip by simp
  then have "\<exists>rows. products db' = products db @ rows \<and>
        map p_rank rows = map fst (ip # ips) \<and>
        map p_title rows = map (title \<circ> snd) (ip # ips) \<and>
        map p_affiliate_link rows = map (url \<circ> snd) (ip # ips) \<and>
        map p_summary rows = map (summary \<circ> snd) (ip # ips) \<and>
        map p_category_id rows = replicate (length (ip # ips)) cid"
    by (rule exI [where x = "?row # rows"])
  moreover have "categories db' = categories db" using c c1 by simp
  ultimately show ?case by (rule conjI [rotated])
qed

lemma insert_loop_total:
  "list_ex (\<lambda>c. c_id c = cid) (categories db) \<Longrightarrow> \<exists>db'. insert_loop db cid ips now = Inr db'"
proof (induction ips arbitrary: db)
  case Nil
  then show ?case by simp
next
  case (Cons ip ips)
  obtain rnk product where ip: "ip = (rnk, product)" by (cases ip)
  from Cons.prems obtain db1 where one: "insert_product db cid product rnk now = Inr db1"
    and c: "categories db1 = categories db"
    by (simp add: insert_product_def)
  from Cons.IH [of db1] Cons.prems c obtain db' where "insert_loop db1 cid ips now = Inr db'"
    by auto
  with one ip show ?case by simp
qed

lemma filter_same_category:
  "map p_category_id rows = replicate n cid \<Longrightarrow> filter (\<lambda>p. p_category_id p = cid) rows = rows"
proof -
  assume a: "map p_category_id rows = replicate n cid"
  have "\<forall>p\<in>set rows. p_category_id p = cid"
  proof
    fix p assume "p \<in> set rows"
    then have "p_category_id p \<in> set (map p_category_id rows)" by simp
    with a show "p_category_id p = cid" by (simp split: if_splits)
  qed
  then show ?thesis by (simp add: filter_id_conv)
qed

lemma filter_other_category:
  "map p_category_id rows = replicate n cid \<Longrightarrow> d \<noteq> cid \<Longrightarrow> filter (\<lambda>p. p_category_id p = d) rows = []"
proof -
  assume a: "map p_category_id rows = replicate n cid" and d: "d \<noteq> cid"
  have "\<forall>p\<in>set rows. p_category_id p \<noteq> d"
  proof
    fix p assume "p \<in> set rows"
    then have "p_category_id p \<in> set (map p_category_id rows)" by simp
    with a d show "p_category_id p \<noteq> d" by (auto split: if_splits)
  qed
  then show ?thesis by (simp add: filter_empty_conv)
qed

text \<open>What a committed replacement leaves in the table.\<close>

lemma insert_products_rows:
  assumes "insert_products db cid prods now = Inr db'"
  shows "categories db' = categories db"
    and "\<exists>rows. filter (\<lambda>p. p_category_id p = cid) (products db') = rows \<and>
        map p_rank rows = [1..int (length prods)] \<and>
        map p_title rows = map title prods \<and>
        map p_affiliate_link rows = map url prods \<and>
        map p_summary rows = map summary prods"
    and "d \<noteq> cid \<Longrightarrow> filter (\<lambda>p. p_category_id p = d) (products db')
        = filter (\<lambda>p. p_category_id p = d) (products db)"
proof -
  let ?ips = "py_enumerate 1 prods"
  from assms have l: "insert_loop (delete_products db cid) cid ?ips now = Inr db'"
    by (simp add: insert_products_def)
  from insert_loop_rows [OF l] obtain rows where
    c: "categories db' = categories (delete_products db cid)" and
    r: "products db' = products (delete_products db cid) @ rows"
       "map p_rank rows = map fst ?ips"
       "map p_title rows = map (title \<circ> snd) ?ips"
       "map p_affiliate_link rows = map (url \<circ> snd) ?ips"
       "map p_summary rows = map (summary \<circ> snd) ?ips"
       "map p_category_id rows = replicate (length ?ips) cid"
    by blast
  show "categories db' = categories db" using c by (simp add: delete_products_def)
  have del: "filter (\<lambda>p. p_category_id p = cid) (products (delete_products db cid)) = []"
    by (simp add: delete_products_def filter_empty_conv)
  have f: "filter (\<lambda>p. p_category_id p = cid) (products db') = rows"
    using r(1) del filter_same_category [OF r(6)] by simp
  have m: "map (g \<circ> snd) ?ips = map g prods" for g :: "product_info \<Rightarrow> string"
    using snd_py_enumerate [of 1 prods] by (metis map_map)
  have "map p_rank rows = [1..int (length prods)]"
    using r(2) fst_py_enumerate [of 1 prods] by simp
  with f r(3,4,5) m
  show "\<exists>rows. filter (\<lambda>p. p_category_id p = cid) (products db') = rows \<and>
        map p_rank rows = [1..int (length prods)] \<and>
        map p_title rows = map title prods \<and>
        map p_affiliate_link rows = map url prods \<and>
        map p_summary rows = map summary prods"
    by simp
  show "filter (\<lambda>p. p_category_id p = d) (products db')
        = filter (\<lambda>p. p_category_id p = d) (products db)" if d: "d \<noteq> cid"
  proof -
    have "filter (\<lambda>p. p_category_id p = d) (products (delete_products db cid))
        = filter (\<lambda>p. p_category_id p = d) (products db)"
      using d by (auto simp: delete_products_def intro: filter_cong)
    then show ?thesis using r(1) filter_other_category [OF r(6) d] by simp
  qed
qed

lemma insert_products_total:
  "list_ex (\<lambda>c. c_id c = cid) (categories db) \<Longrightarrow> \<exists>db'. insert_products db cid prods now = Inr db'"
  using insert_loop_total [of cid "delete_products db cid"]
  by (simp add: insert_products_def delete_products_def)

lemma py_enumerate_rank_update:
  "py_enumerate k (map (\<lambda>p. p\<lparr>rank := g p\<rparr>) prods)
     = map (\<lambda>(i, p). (i, p\<lparr>rank := g p\<rparr>)) (py_enumerate k prods)"
  by (induction prods arbitrary: k) simp_all

lemma insert_loop_rank_update:
  "insert_loop db cid (map (\<lambda>(i, p). (i, p\<lparr>rank := g p\<rparr>)) ips) now = insert_loop db cid ips now"
proof (induction ips arbitrary: db)
  case Nil
  then show ?case by simp
next
  case (Cons ip ips)
  obtain rnk product where ip: "ip = (rnk, product)" by (cases ip)
  have "insert_product db cid (product\<lparr>rank := g product\<rparr>) rnk now
      = insert_product db cid product rnk now"
    by (simp add: insert_product_def)
  with Cons.IH ip show ?case by (simp split: sum.splits)
qed

lemma map_tuple4:
  "map f1 xs = map g1 ys \<Longrightarrow> map f2 xs = map g2 ys \<Longrightarrow> map f3 xs = map g3 ys \<Longrightarrow>
   map f4 xs = map g4 ys \<Longrightarrow>
     map (\<lambda>x. (f1 x, f2 x, f3 x, f4 x)) xs = map (\<lambda>y. (g1 y, g2 y, g3 y, g4 y)) ys"
proof (induction xs arbitrary: ys)
  case Nil
  then show ?case by simp
next
  case (Cons x xs)
  then obtain y ys' where ys: "ys = y # ys'" by (cases ys) auto
  with Cons.prems Cons.IH [of ys'] show ?case by simp
qed

lemma insert_products_records:
  assumes "insert_products db cid prods now = Inr db'"
  shows "map (\<lambda>p. (p_rank p, p_title p, p_affiliate_link p, p_summary p))
           (filter (\<lambda>p. p_category_id p = cid) (products db'))
         = map (\<lambda>ip. (fst ip, title (snd ip), url (snd ip), summary (snd ip)))
             (py_enumerate 1 prods)"
proof -
  let ?ips = "py_enumerate 1 prods"
  from assms have l: "insert_loop (delete_products db cid) cid ?ips now = Inr db'"
    by (simp add: insert_products_def)
  from insert_loop_rows [OF l] obtain rows where
    r: "products db' = products (delete_products db cid) @ rows"
       "map p_rank rows = map fst ?ips"
       "map p_title rows = map (title \<circ> snd) ?ips"
       "map p_affiliate_link rows = map (url \<circ> snd) ?ips"
       "map p_summary rows = map (summary \<circ> snd) ?ips"
       "map p_category_id rows = replicate (length ?ips) cid"
    by blast
  have del: "filter (\<lambda>p. p_category_id p = cid) (products (delete_products db cid)) = []"
    by (simp add: delete_products_def filter_empty_conv)
  have f: "filter (\<lambda>p. p_category_id p = cid) (products db') = rows"
    using r(1) del filter_same_category [OF r(6)] by simp
  from map_tuple4 [OF r(2) r(3) r(4) r(5)] show ?thesis
    by (simp add: f)
qed

text \<open>
  Claim C9. \<^verbatim>\<open>insert_products\<close> numbers the records by
  \<^verbatim>\<open>enumerate(products, 1)\<close>: whenever the transaction commits, the rows of the
  category are, in order, the records of the list passed, the first with rank 1 and the
  last with rank \<open>N\<close>, \<open>N\<close> being its length, each row with the title, link and
  summary of its record; so the ranks stored are \<open>1, \<dots>, N\<close>, and
  \<^verbatim>\<open>get_products_by_category\<close> reads the rows back in that order. The key
  \<^verbatim>\<open>'rank'\<close> of the records has no influence: changing it in any way gives the
  same result. The transaction commits whenever the category is stored.
\<close>

theorem insert_products_ranks:
  "(insert_products db cid prods now = Inr db' \<longrightarrow>
      map p_rank (filter (\<lambda>p. p_category_id p = cid) (products db')) = [1..int (length prods)] \<and>
      map p_rank (get_products_by_category db' cid) = [1..int (length prods)] \<and>
      map (\<lambda>p. (p_rank p, p_title p, p_affiliate_link p, p_summary p))
          (filter (\<lambda>p. p_category_id p = cid) (products db'))
        = map (\<lambda>ip. (fst ip, title (snd ip), url (snd ip), summary (snd ip)))
            (py_enumerate 1 prods) \<and>
      map (\<lambda>p. (p_rank p, p_title p, p_affiliate_link p, p_summary p))
          (get_products_by_category db' cid)
        = map (\<lambda>ip. (fst ip, title (snd ip), url (snd ip), summary (snd ip)))
            (py_enumerate 1 prods)) \<and>
   map fst (py_enumerate 1 prods) = [1..int (length prods)] \<and>
   map snd (py_enumerate 1 prods) = prods \<and>
   insert_products db cid (map (\<lambda>p. p\<lparr>rank := g p\<rparr>) prods) now
     = insert_products db cid prods now \<and>
   (list_ex (\<lambda>c. c_id c = cid) (categories db) \<longrightarrow>
      (\<exists>db'. insert_products db cid prods now = Inr db'))"
proof (intro conjI impI)
  assume a: "insert_products db cid prods now = Inr db'"
  from insert_products_rows(2) [OF a]
  show r: "map p_rank (filter (\<lambda>p. p_category_id p = cid) (products db')) = [1..int (length prods)]"
    by blast
  have "sorted (map p_rank (filter (\<lambda>p. p_category_id p = cid) (products db')))"
    by (simp only: r sorted_upto)
  then have s: "sort_key p_rank (filter (\<lambda>p. p_category_id p = cid) (products db'))
      = filter (\<lambda>p. p_category_id p = cid) (products db')"
    by (rule sort_key_id_if_sorted)
  with r show "map p_rank (get_products_by_category db' cid) = [1..int (length prods)]"
    by (simp add: get_products_by_category_def)
  show t: "map (\<lambda>p. (p_rank p, p_title p, p_affiliate_link p, p_summary p))
          (filter (\<lambda>p. p_category_id p = cid) (products db'))
        = map (\<lambda>ip. (fst ip, title (snd ip), url (snd ip), summary (snd ip)))
            (py_enumerate 1 prods)"
    using a by (rule insert_products_records)
  from s t show "map (\<lambda>p. (p_rank p, p_title p, p_affiliate_link p, p_summary p))
          (get_products_by_category db' cid)
        = map (\<lambda>ip. (fst ip, title (snd ip), url (snd ip), summary (snd ip)))
            (py_enumerate 1 prods)"
    by (simp add: get_products_by_category_def)
next
  show "map fst (py_enumerate 1 prods) = [1..int (length prods)]"
    using fst_py_enumerate [of 1 prods] by simp
next
  show "map snd (py_enumerate 1 prods) = prods" by (rule snd_py_enumerate)
next
  show "insert_products db cid (map (\<lambda>p. p\<lparr>rank := g p\<rparr>) prods) now
     = insert_products db cid prods now"
    by (simp add: insert_products_def py_enumerate_rank_update insert_loop_rank_update)
next
  assume "list_ex (\<lambda>c. c_id c = cid) (categories db)"
  then show "\<exists>db'. insert_products db cid prods now = Inr db'"
    by (rule insert_products_total)
qed

theorem insert_products_ranks_witness:
  "\<exists>db'. insert_products example_db 1 [mouse_info, lamp_info] 5000 = Inr db' \<and>
     map p_rank (filter (\<lambda>p. p_category_id p = 1) (products db')) = [1, 2] \<and>
     map p_rank (get_products_by_category db' 1) = [1, 2] \<and>
     map (\<lambda>p. (p_rank p, p_title p)) (get_products_by_category db' 1)
       = [(1, ''Wireless Mouse''), (2, ''Desk Lamp'')]"
proof -
  note t = insert_products_ranks [of example_db 1 "[mouse_info, lamp_info]" 5000 _ "\<lambda>p. 0"]
  have "list_ex (\<lambda>c. c_id c = 1) (categories example_db)"
    by (simp add: example_db_def books_def)
  with t obtain db' where i: "insert_products example_db 1 [mouse_info, lamp_info] 5000 = Inr db'"
    by blast
  with insert_products_ranks [of example_db 1 "[mouse_info, lamp_info]" 5000 db' "\<lambda>p. 0"]
  have r: "map p_rank (filter (\<lambda>p. p_category_id p = 1) (products db')) = [1..int (length [mouse_info, lamp_info])]"
      "map p_rank (get_products_by_category db' 1) = [1..int (length [mouse_info, lamp_info])]"
    and q: "map (\<lambda>p. (p_rank p, p_title p, p_affiliate_link p, p_summary p))
          (get_products_by_category db' 1)
        = map (\<lambda>ip. (fst ip, title (snd ip), url (snd ip), summary (snd ip)))
            (py_enumerate 1 [mouse_info, lamp_info])"
    by blast+
  have u: "[1..int (length [mouse_info, lamp_info])] = [1, 2]"
    by (simp add: upto_rec1)
  have "map (\<lambda>p. (p_rank p, p_title p)) (get_products_by_category db' 1)
      = map (\<lambda>(a, b, c, d). (a, b))
          (map (\<lambda>p. (p_rank p, p_title p, p_affiliate_link p, p_summary p))
             (get_products_by_category db' 1))"
    by simp
  also have "\<dots> = [(1, ''Wireless Mouse''), (2, ''Desk Lamp'')]"
    unfolding q by (simp add: mouse_info_def lamp_info_def)
  finally show ?thesis using i r u by simp
qed

section \<open>Properties: scrape and store\<close>

lemma get_category_by_id_None:
  "get_category_by_id db cid = None \<longleftrightarrow> (\<forall>c\<in>set (categories db). c_id c \<noteq> cid)"
  by (auto simp: get_category_by_id_def find_None_iff)

lemma get_category_by_id_Some:
  "get_category_by_id db cid = Some cat \<Longrightarrow> cat \<in> set (categories db) \<and> c_id cat = cid"
  by (auto simp: get_category_by_id_def find_Some_iff)

lemma find_stamp:
  "find (\<lambda>c. c_id c = d)
     (map (\<lambda>c. if c_id c = cid then c\<lparr>c_last_scraped := Some t\<rparr> else c) cs)
   = (if d = cid then map_option (\<lambda>c. c\<lparr>c_last_scraped := Some t\<rparr>) (find (\<lambda>c. c_id c = d) cs)
      else find (\<lambda>c. c_id c = d) cs)"
  by (induction cs) auto

lemma get_category_after_stamp:
  "get_category_by_id (update_category_scraped db cid t) d
     = (if d = cid then map_option (\<lambda>c. c\<lparr>c_last_scraped := Some t\<rparr>) (get_category_by_id db d)
        else get_category_by_id db d)"
  by (simp add: get_category_by_id_def update_category_scraped_def find_stamp)

lemma products_after_stamp: "products (update_category_scraped db cid t) = products db"
  by (simp add: update_category_scraped_def)

text \<open>
  Claim C10. When the store holds no category with the identifier asked,
  \<^verbatim>\<open>scrape_and_store_category\<close> returns \<^verbatim>\<open>False\<close>, the store is the one it
  was given, and no event happened: no sleep and no request.
\<close>

theorem scrape_and_store_unknown_category:
  "(\<forall>c\<in>set (categories db). c_id c \<noteq> cid) \<longrightarrow>
     scrape_and_store_category uj net db cid t_insert t_stamp = (Inr False, db, [])"
  by (simp add: scrape_and_store_category_def get_category_by_id_None [symmetric])

theorem scrape_and_store_unknown_category_witness:
  "list_all (\<lambda>c. c_id c \<noteq> 7) (categories example_db) \<and>
   scrape_and_store_category example_urljoin (net_status 200 (page_of [mouse_block]))
     example_db 7 5000 6000 = (Inr False, example_db, [])"
proof -
  have h: "\<forall>c\<in>set (categories example_db). c_id c \<noteq> 7"
    by (simp add: example_db_def books_def toys_def)
  from scrape_and_store_unknown_category
    [of example_db 7 example_urljoin "net_status 200 (page_of [mouse_block])" 5000 6000] h
  have "scrape_and_store_category example_urljoin (net_status 200 (page_of [mouse_block]))
     example_db 7 5000 6000 = (Inr False, example_db, [])"
    by (rule mp)
  moreover from h have "list_all (\<lambda>c. c_id c \<noteq> 7) (categories example_db)"
    by (simp add: list_all_iff)
  ultimately show ?thesis by simp
qed

lemma example_scrape: "scrape_category_products example_urljoin
     (net_status 200 (page_of [anchorless_block, mouse_block, lamp_block])) (c_href books) 10
   = ([mouse_info, lamp_info], [Sleep 2 5, Get ''https://www.amazon.com/Best-Sellers-Books/zgbs/books''])"
  by code_simp

lemma example_scrape_empty: "scrape_category_products example_urljoin
     (net_status 200 (page_of [anchorless_block])) (c_href books) 10
   = ([], [Sleep 2 5, Get ''https://www.amazon.com/Best-Sellers-Books/zgbs/books''])"
  by code_simp

text \<open>
  Claim C2. Let the category be stored and let the extractor return the records
  \<open>prods\<close>. When \<open>prods\<close> is not empty, \<^verbatim>\<open>scrape_and_store_category\<close>
  returns \<^verbatim>\<open>True\<close>; the rows of the category are then exactly the new records,
  in order, with the ranks \<open>1, \<dots>, N\<close> (the former rows are gone, the delete and the
  inserts being one transaction, \<open>insert_products\<close>); the rows and the stamps of
  the other categories are as before; and the category's \<^verbatim>\<open>last_scraped\<close> is the
  time of the stamp. When \<open>prods\<close> is empty, it returns \<^verbatim>\<open>False\<close> and the
  store, products and stamps, is unchanged.
\<close>

theorem scrape_and_store_replaces:
  assumes cat: "get_category_by_id db cid = Some cat"
    and scr: "scrape_category_products uj net (c_href cat) 10 = (prods, evs)"
  shows "(prods \<noteq> [] \<longrightarrow>
           (\<exists>db'. scrape_and_store_category uj net db cid t_insert t_stamp = (Inr True, db', evs) \<and>
              map p_rank (filter (\<lambda>p. p_category_id p = cid) (products db')) = [1..int (length prods)] \<and>
              map p_title (filter (\<lambda>p. p_category_id p = cid) (products db')) = map title prods \<and>
              map p_affiliate_link (filter (\<lambda>p. p_category_id p = cid) (products db')) = map url prods \<and>
              map p_summary (filter (\<lambda>p. p_category_id p = cid) (products db')) = map summary prods \<and>
              (\<forall>d. d \<noteq> cid \<longrightarrow>
                 filter (\<lambda>p. p_category_id p = d) (products db')
                   = filter (\<lambda>p. p_category_id p = d) (products db) \<and>
                 get_category_by_id db' d = get_category_by_id db d) \<and>
              get_category_by_id db' cid = Some (cat\<lparr>c_last_scraped := Some t_stamp\<rparr>))) \<and>
         (prods = [] \<longrightarrow>
            scrape_and_store_category uj net db cid t_insert t_stamp = (Inr False, db, evs))"
proof (intro conjI impI)
  assume ne: "prods \<noteq> []"
  from get_category_by_id_Some [OF cat] have "list_ex (\<lambda>c. c_id c = cid) (categories db)"
    by (auto simp: list_ex_iff)
  from insert_products_total [OF this] obtain db1 where
    ins: "insert_products db cid prods t_insert = Inr db1" by blast
  let ?db' = "update_category_scraped db1 cid t_stamp"
  have run: "scrape_and_store_category uj net db cid t_insert t_stamp = (Inr True, ?db', evs)"
    using cat scr ne ins by (simp add: scrape_and_store_category_def)
  from insert_products_rows(2) [OF ins] have rows:
    "map p_rank (filter (\<lambda>p. p_category_id p = cid) (products ?db')) = [1..int (length prods)]"
    "map p_title (filter (\<lambda>p. p_category_id p = cid) (products ?db')) = map title prods"
    "map p_affiliate_link (filter (\<lambda>p. p_category_id p = cid) (products ?db')) = map url prods"
    "map p_summary (filter (\<lambda>p. p_category_id p = cid) (products ?db')) = map summary prods"
    by (simp_all add: products_after_stamp)
  have same: "get_category_by_id db1 d = get_category_by_id db d" for d
    using insert_products_rows(1) [OF ins] by (simp add: get_category_by_id_def)
  have others: "\<forall>d. d \<noteq> cid \<longrightarrow>
                 filter (\<lambda>p. p_category_id p = d) (products ?db')
                   = filter (\<lambda>p. p_category_id p = d) (products db) \<and>
                 get_category_by_id ?db' d = get_category_by_id db d"
    using insert_products_rows(3) [OF ins] same
    by (simp add: products_after_stamp get_category_after_stamp)
  have stamp: "get_category_by_id ?db' cid = Some (cat\<lparr>c_last_scraped := Some t_stamp\<rparr>)"
    using same [of cid] cat by (simp add: get_category_after_stamp)
  from run rows others stamp
  show "\<exists>db'. scrape_and_store_category uj net db cid t_insert t_stamp = (Inr True, db', evs) \<and>
              map p_rank (filter (\<lambda>p. p_category_id p = cid) (products db')) = [1..int (length prods)] \<and>
              map p_title (filter (\<lambda>p. p_category_id p = cid) (products db')) = map title prods \<and>
              map p_affiliate_link (filter (\<lambda>p. p_category_id p = cid) (products db')) = map url prods \<and>
              map p_summary (filter (\<lambda>p. p_category_id p = cid) (products db')) = map summary prods \<and>
              (\<forall>d. d \<noteq> cid \<longrightarrow>
                 filter (\<lambda>p. p_category_id p = d) (products db')
                   = filter (\<lambda>p. p_category_id p = d) (products db) \<and>
                 get_category_by_id db' d = get_category_by_id db d) \<and>
              get_category_by_id db' cid = Some (cat\<lparr>c_last_scraped := Some t_stamp\<rparr>)"
    by (intro exI [where x = ?db'] conjI)
next
  assume "prods = []"
  with cat scr show "scrape_and_store_category uj net db cid t_insert t_stamp = (Inr False, db, evs)"
    by (simp add: scrape_and_store_category_def)
qed

theorem scrape_and_store_replaces_witness:
  "(\<exists>db'. scrape_and_store_category example_urljoin
        (net_status 200 (page_of [anchorless_block, mouse_block, lamp_block])) example_db 1 5000 6000
      = (Inr True, db', [Sleep 2 5, Get ''https://www.amazon.com/Best-Sellers-Books/zgbs/books'']) \<and>
      map p_rank (filter (\<lambda>p. p_category_id p = 1) (products db')) = [1, 2] \<and>
      map p_title (filter (\<lambda>p. p_category_id p = 1) (products db')) = [''Wireless Mouse'', ''Desk Lamp''] \<and>
      get_category_by_id db' 1 = Some (books\<lparr>c_last_scraped := Some 6000\<rparr>)) \<and>
   scrape_and_store_category example_urljoin
        (net_status 200 (page_of [anchorless_block])) example_db 1 5000 6000
      = (Inr False, example_db, [Sleep 2 5, Get ''https://www.amazon.com/Best-Sellers-Books/zgbs/books''])"
proof -
  have cat: "get_category_by_id example_db 1 = Some books"
    by (simp add: get_category_by_id_def example_db_def books_def)
  have u: "[1..int (length [mouse_info, lamp_info])] = [1, 2]"
    by (simp add: upto_rec1)
  have ne: "[mouse_info, lamp_info] \<noteq> []" by simp
  from scrape_and_store_replaces [OF cat example_scrape, of 5000 6000] ne
  have a: "\<exists>db'. scrape_and_store_category example_urljoin
        (net_status 200 (page_of [anchorless_block, mouse_block, lamp_block])) example_db 1 5000 6000
      = (Inr True, db', [Sleep 2 5, Get ''https://www.amazon.com/Best-Sellers-Books/zgbs/books'']) \<and>
      map p_rank (filter (\<lambda>p. p_category_id p = 1) (products db')) = [1, 2] \<and>
      map p_title (filter (\<lambda>p. p_category_id p = 1) (products db')) = [''Wireless Mouse'', ''Desk Lamp''] \<and>
      get_category_by_id db' 1 = Some (books\<lparr>c_last_scraped := Some 6000\<rparr>)"
    unfolding u by (auto simp: mouse_info_def lamp_info_def)
  from scrape_and_store_replaces [OF cat example_scrape_empty, of 5000 6000]
  have b: "scrape_and_store_category example_urljoin
        (net_status 200 (page_of [anchorless_block])) example_db 1 5000 6000
      = (Inr False, example_db, [Sleep 2 5, Get ''https://www.amazon.com/Best-Sellers-Books/zgbs/books''])"
    by blast
  from a b show ?thesis by (rule conjI)
qed


section \<open>Properties: categories that need an update\<close>

lemma mset_needing_update:
  "mset (get_categories_needing_update db now h)
     = filter_mset (needs_update now h) (mset (categories db))"
  by (simp add: get_categories_needing_update_def)

lemma sorted_needing_update:
  "sorted (map c_last_scraped (get_categories_needing_update db now h))"
  by (simp add: get_categories_needing_update_def)

text \<open>
  Claim C6. \<^verbatim>\<open>get_categories_needing_update\<close> returns exactly the stored
  categories whose \<^verbatim>\<open>last_scraped\<close> is null or earlier than now minus the given
  number of hours (each as often as it is stored), in ascending order of
  \<^verbatim>\<open>last_scraped\<close>, where null is below every timestamp. With the timestamps
  null, now minus 1 hour and now minus 48 hours and a window of 24 hours the result is
  the null one and then the one of 48 hours ago, in whatever order the table holds them.
\<close>

theorem get_categories_needing_update_due_sorted:
  "mset (get_categories_needing_update db now h)
     = filter_mset (needs_update now h) (mset (categories db)) \<and>
   sorted (map c_last_scraped (get_categories_needing_update db now h)) \<and>
   needs_update now h c
     = (c_last_scraped c = None \<or>
        (\<exists>t. c_last_scraped c = Some t \<and> t < now - h * microseconds_per_hour)) \<and>
   (None :: timestamp option) < Some t \<and>
   get_categories_needing_update
     (db\<lparr>categories :=
          [a\<lparr>c_last_scraped := None\<rparr>,
           b\<lparr>c_last_scraped := Some (now - 1 * microseconds_per_hour)\<rparr>,
           d\<lparr>c_last_scraped := Some (now - 48 * microseconds_per_hour)\<rparr>]\<rparr>) now 24
     = [a\<lparr>c_last_scraped := None\<rparr>,
        d\<lparr>c_last_scraped := Some (now - 48 * microseconds_per_hour)\<rparr>] \<and>
   get_categories_needing_update
     (db\<lparr>categories :=
          [d\<lparr>c_last_scraped := Some (now - 48 * microseconds_per_hour)\<rparr>,
           b\<lparr>c_last_scraped := Some (now - 1 * microseconds_per_hour)\<rparr>,
           a\<lparr>c_last_scraped := None\<rparr>]\<rparr>) now 24
     = [a\<lparr>c_last_scraped := None\<rparr>,
        d\<lparr>c_last_scraped := Some (now - 48 * microseconds_per_hour)\<rparr>]"
proof (intro conjI)
  show "needs_update now h c
     = (c_last_scraped c = None \<or>
        (\<exists>t. c_last_scraped c = Some t \<and> t < now - h * microseconds_per_hour))"
    by (cases "c_last_scraped c") (simp_all add: needs_update_def)
qed (simp_all add: mset_needing_update sorted_needing_update,
     simp_all add: get_categories_needing_update_def needs_update_def microseconds_per_hour_def)

section \<open>Properties: the fetcher\<close>













section \<open>Properties: title and summary\<close>

lemma py_in_iff: "py_in needle hay \<longleftrightarrow> (\<exists>pre post. hay = pre @ needle @ post)"
proof (induction hay)
  case Nil
  then show ?case by auto
next
  case (Cons c cs)
  show ?case
  proof
    assume "py_in needle (c # cs)"
    then consider "take (length needle) (c # cs) = needle" | "py_in needle cs" by auto
    then show "\<exists>pre post. c # cs = pre @ needle @ post"
    proof cases
      case 1
      then have "c # cs = [] @ needle @ drop (length needle) (c # cs)"
        by (metis append_Nil append_take_drop_id)
      then show ?thesis by blast
    next
      case 2
      with Cons.IH obtain pre post where "cs = pre @ needle @ post" by blast
      then have "c # cs = (c # pre) @ needle @ post" by simp
      then show ?thesis by blast
    qed
  next
    assume "\<exists>pre post. c # cs = pre @ needle @ post"
    then obtain pre post where e: "c # cs = pre @ needle @ post" by blast
    show "py_in needle (c # cs)"
    proof (cases pre)
      case Nil
      with e have "take (length needle) (c # cs) = needle" by simp
      then show ?thesis by simp
    next
      case (Cons p pre')
      with e have "cs = pre' @ needle @ post" by simp
      with Cons.IH have "py_in needle cs" by blast
      then show ?thesis by simp
    qed
  qed
qed

lemma py_in_map_iff:
  "py_in needle (map f t) \<longleftrightarrow> (\<exists>pre w post. t = pre @ w @ post \<and> map f w = needle)"
proof
  assume "py_in needle (map f t)"
  then obtain pre post where "map f t = pre @ (needle @ post)"
    unfolding py_in_iff by blast
  then have "\<exists>us vs. t = us @ vs \<and> pre = map f us \<and> needle @ post = map f vs"
    by (simp only: map_eq_append_conv)
  then obtain us vs where t: "t = us @ vs" and v: "map f vs = needle @ post"
    by metis
  from v have "\<exists>w ws. vs = w @ ws \<and> needle = map f w \<and> post = map f ws"
    by (simp only: map_eq_append_conv)
  then obtain w ws where "vs = w @ ws" and "map f w = needle"
    by metis
  with t show "\<exists>pre w post. t = pre @ w @ post \<and> map f w = needle" by blast
next
  assume "\<exists>pre w post. t = pre @ w @ post \<and> map f w = needle"
  then obtain pre w post where "t = pre @ w @ post" and "map f w = needle" by blast
  then have "map f t = map f pre @ needle @ map f post" by simp
  then show "py_in needle (map f t)" unfolding py_in_iff by blast
qed

lemma stars_in_lower: "py_in ''stars'' (py_lower t) \<longleftrightarrow> spec_mentions_stars t"
  by (simp only: py_lower_def spec_mentions_stars_def py_in_map_iff)

lemma summary_loop_find:
  "summary_loop b d sels
     = (case find spec_summary_accepts (List.map_filter (select_one_text b) sels) of
          None \<Rightarrow> d
        | Some t \<Rightarrow> if length t \<le> 200 then t else take 200 t @ ''...'')"
proof (induction sels)
  case Nil
  then show ?case by simp
next
  case (Cons sel sels)
  show ?case
  proof (cases "select_one_text b sel")
    case None
    with Cons.IH show ?thesis by simp
  next
    case (Some t)
    have "(t \<noteq> [] \<and> length t > 10 \<and> \<not> py_in ''stars'' (py_lower t)) = spec_summary_accepts t"
      by (auto simp: spec_summary_accepts_def stars_in_lower)
    with Some Cons.IH show ?thesis by simp
  qed
qed

lemma title_loop_find:
  "title_loop b cur sels
     = (case find spec_title_accepts (List.map_filter (select_one_text b) sels) of
          None \<Rightarrow> last (cur # List.map_filter (select_one_text b) sels)
        | Some t \<Rightarrow> t)"
proof (induction sels arbitrary: cur)
  case Nil
  then show ?case by simp
next
  case (Cons sel sels)
  show ?case
  proof (cases "select_one_text b sel")
    case None
    with Cons.IH [of cur] show ?thesis by (simp split: option.splits)
  next
    case (Some t)
    with Cons.IH [of t] show ?thesis
      by (simp add: spec_title_accepts_def split: option.splits)
  qed
qed

lemma spec_summary_accepts_code:
  "spec_summary_accepts t = (10 < length t \<and> \<not> py_in ''stars'' (py_lower t))"
  by (simp only: spec_summary_accepts_def stars_in_lower)

lemma example_no_stars: "\<not> py_in ''stars'' (py_lower (replicate n CHR ''x''))"
proof -
  have "\<not> py_in ''stars'' (replicate n CHR ''x'')"
    by (induction n) simp_all
  moreover have "py_lower (replicate n CHR ''x'') = replicate n CHR ''x''"
    by (simp add: py_lower_def lower_char_def)
  ultimately show ?thesis by simp
qed

lemma example_long_candidates: "summary_candidates (long_block n) = [replicate n CHR ''x'']"
  by (simp add: summary_candidates_def long_block_def desc_selectors_def map_filter_simps)

lemma extract_product_info_Some:
  "find_a_href b = Some h \<Longrightarrow> uj base_url h = Inr pu \<Longrightarrow>
     extract_product_info uj b r
       = Some \<lparr>title = title_loop b no_title title_selectors,
               url = convert_to_affiliate_link pu default_affiliate_tag,
               summary = summary_loop b no_description desc_selectors,
               rank = r\<rparr>"
  by (simp add: extract_product_info_def)

lemma extract_product_info_None_iff:
  "extract_product_info uj b r = None \<longleftrightarrow>
     find_a_href b = None \<or> (\<exists>h e. find_a_href b = Some h \<and> uj base_url h = Inl e)"
  by (auto simp: extract_product_info_def split: option.splits sum.splits)

lemma find_first_accepted:
  "list_all (\<lambda>c. \<not> P c) rejected \<Longrightarrow> P t \<Longrightarrow> find P (rejected @ t # rest) = Some t"
  by (induction rejected) simp_all

lemma find_none_accepted: "list_all (\<lambda>c. \<not> P c) cs \<Longrightarrow> find P cs = None"
  by (induction cs) simp_all

lemma example_mouse_candidates:
  "summary_candidates mouse_block
     = [] @ ''4.5 out of 5 Stars'' # [''Ergonomic mouse with USB receiver'']"
  by (simp add: summary_candidates_def mouse_block_def desc_selectors_def)

lemma example_mouse_rejected: "\<not> spec_summary_accepts ''4.5 out of 5 Stars''"
  by (simp add: spec_summary_accepts_code py_lower_def lower_char_def)

lemma example_mouse_accepted: "spec_summary_accepts ''Ergonomic mouse with USB receiver''"
  by (simp add: spec_summary_accepts_code py_lower_def lower_char_def)

text \<open>
  Claim C5. A block with an anchor whose reference \<^verbatim>\<open>urljoin\<close> joins gives a
  record, and only such a block does. The summary of that record is made of the first
  candidate, in selector order, whose text is longer than 10 characters and does not
  contain \<^verbatim>\<open>stars\<close> in any letter case; the candidates before it, which fail
  the test, are passed over. A text of at most 200 characters is kept as it is; a
  longer one becomes its first 200 characters followed by three dots. With no accepted
  candidate the summary is \<^verbatim>\<open>No description available\<close>.
\<close>

theorem summary_resolution:
  "(extract_product_info uj b r = Some info \<longrightarrow>
      summary info = summary_loop b no_description desc_selectors) \<and>
   summary_loop b no_description desc_selectors
     = (case find spec_summary_accepts (summary_candidates b) of
          None \<Rightarrow> ''No description available''
        | Some t \<Rightarrow> if length t \<le> 200 then t else take 200 t @ ''...'') \<and>
   spec_summary_accepts t
     = (10 < length t \<and> \<not> (\<exists>pre w post. t = pre @ w @ post \<and> map lower_char w = ''stars'')) \<and>
   map lower_char ''STARS Stars sTaRs'' = ''stars stars stars'' \<and>
   (extract_product_info uj b r = None \<longleftrightarrow>
      find_a_href b = None \<or> (\<exists>h e. find_a_href b = Some h \<and> uj base_url h = Inl e)) \<and>
   (find_a_href b = Some h \<and> uj base_url h = Inr pu \<longrightarrow>
      (\<exists>info. extract_product_info uj b r = Some info \<and>
         summary info
           = (case find spec_summary_accepts (summary_candidates b) of
                None \<Rightarrow> ''No description available''
              | Some t \<Rightarrow> if length t \<le> 200 then t else take 200 t @ ''...''))) \<and>
   (find_a_href b = Some h \<and> uj base_url h = Inr pu \<and>
    summary_candidates b = rejected @ t # rest \<and>
    list_all (\<lambda>c. \<not> spec_summary_accepts c) rejected \<and> spec_summary_accepts t \<longrightarrow>
      (\<exists>info. extract_product_info uj b r = Some info \<and>
         summary info = (if length t \<le> 200 then t else take 200 t @ ''...''))) \<and>
   (find_a_href b = Some h \<and> uj base_url h = Inr pu \<and>
    list_all (\<lambda>c. \<not> spec_summary_accepts c) (summary_candidates b) \<longrightarrow>
      (\<exists>info. extract_product_info uj b r = Some info \<and>
         summary info = ''No description available''))"
proof -
  have loop: "summary_loop b no_description desc_selectors
     = (case find spec_summary_accepts (summary_candidates b) of
          None \<Rightarrow> ''No description available''
        | Some t \<Rightarrow> if length t \<le> 200 then t else take 200 t @ ''...'')"
    by (simp add: summary_loop_find summary_candidates_def no_description_def)
  show ?thesis
  proof (intro conjI impI)
    assume "extract_product_info uj b r = Some info"
    then show "summary info = summary_loop b no_description desc_selectors"
      by (auto simp: extract_product_info_def split: option.splits sum.splits)
  next
    show "summary_loop b no_description desc_selectors
     = (case find spec_summary_accepts (summary_candidates b) of
          None \<Rightarrow> ''No description available''
        | Some t \<Rightarrow> if length t \<le> 200 then t else take 200 t @ ''...'')"
      by (rule loop)
  next
    show "spec_summary_accepts t
     = (10 < length t \<and> \<not> (\<exists>pre w post. t = pre @ w @ post \<and> map lower_char w = ''stars''))"
      by (simp add: spec_summary_accepts_def spec_mentions_stars_def)
  next
    show "map lower_char ''STARS Stars sTaRs'' = ''stars stars stars''"
      by (simp add: lower_char_def)
  next
    show "extract_product_info uj b r = None \<longleftrightarrow>
      find_a_href b = None \<or> (\<exists>h e. find_a_href b = Some h \<and> uj base_url h = Inl e)"
      by (rule extract_product_info_None_iff)
  next
    assume a: "find_a_href b = Some h \<and> uj base_url h = Inr pu"
    then have "extract_product_info uj b r
       = Some \<lparr>title = title_loop b no_title title_selectors,
               url = convert_to_affiliate_link pu default_affiliate_tag,
               summary = summary_loop b no_description desc_selectors,
               rank = r\<rparr>"
      by (simp add: extract_product_info_Some)
    then show "\<exists>info. extract_product_info uj b r = Some info \<and>
         summary info
           = (case find spec_summary_accepts (summary_candidates b) of
                None \<Rightarrow> ''No description available''
              | Some t \<Rightarrow> if length t \<le> 200 then t else take 200 t @ ''...'')"
      using loop by simp
  next
    assume a: "find_a_href b = Some h \<and> uj base_url h = Inr pu \<and>
      summary_candidates b = rejected @ t # rest \<and>
      list_all (\<lambda>c. \<not> spec_summary_accepts c) rejected \<and> spec_summary_accepts t"
    then have f: "find spec_summary_accepts (summary_candidates b) = Some t"
      by (simp add: find_first_accepted)
    from a have "extract_product_info uj b r
       = Some \<lparr>title = title_loop b no_title title_selectors,
               url = convert_to_affiliate_link pu default_affiliate_tag,
               summary = summary_loop b no_description desc_selectors,
               rank = r\<rparr>"
      by (simp add: extract_product_info_Some)
    then show "\<exists>info. extract_product_info uj b r = Some info \<and>
         summary info = (if length t \<le> 200 then t else take 200 t @ ''...'')"
      using loop f by simp
  next
    assume a: "find_a_href b = Some h \<and> uj base_url h = Inr pu \<and>
      list_all (\<lambda>c. \<not> spec_summary_accepts c) (summary_candidates b)"
    then have f: "find spec_summary_accepts (summary_candidates b) = None"
      by (simp add: find_none_accepted)
    from a have "extract_product_info uj b r
       = Some \<lparr>title = title_loop b no_title title_selectors,
               url = convert_to_affiliate_link pu default_affiliate_tag,
               summary = summary_loop b no_description desc_selectors,
               rank = r\<rparr>"
      by (simp add: extract_product_info_Some)
    then show "\<exists>info. extract_product_info uj b r = Some info \<and>
         summary info = ''No description available''"
      using loop f by simp
  qed
qed

theorem summary_resolution_witness:
  "(\<exists>info. extract_product_info example_urljoin mouse_block 1 = Some info \<and>
      summary info = ''Ergonomic mouse with USB receiver'') \<and>
   (\<exists>info. extract_product_info example_urljoin (long_block 200) 1 = Some info \<and>
      summary info = replicate 200 CHR ''x'') \<and>
   (\<exists>info. extract_product_info example_urljoin (long_block 201) 1 = Some info \<and>
      summary info = replicate 200 CHR ''x'' @ ''...'') \<and>
   (\<exists>info. extract_product_info example_urljoin lamp_block 1 = Some info \<and>
      summary info = ''No description available'')"
proof -
  have acc: "spec_summary_accepts (replicate n CHR ''x'') = (10 < n)" for n
    by (simp add: spec_summary_accepts_code example_no_stars)
  have m: "find_a_href mouse_block = Some ''/dp/B08N5WRWNW/ref=zg_bs'' \<and>
      example_urljoin base_url ''/dp/B08N5WRWNW/ref=zg_bs''
        = Inr ''https://www.amazon.com/dp/B08N5WRWNW/ref=zg_bs'' \<and>
      summary_candidates mouse_block
        = [''4.5 out of 5 Stars''] @ ''Ergonomic mouse with USB receiver'' # [] \<and>
      list_all (\<lambda>c. \<not> spec_summary_accepts c) [''4.5 out of 5 Stars''] \<and>
      spec_summary_accepts ''Ergonomic mouse with USB receiver''"
    using example_mouse_candidates example_mouse_rejected example_mouse_accepted
    by (simp add: mouse_block_def example_urljoin_def base_url_def)
  from summary_resolution
    [where uj = example_urljoin and b = mouse_block and r = 1
       and h = "''/dp/B08N5WRWNW/ref=zg_bs''"
       and pu = "''https://www.amazon.com/dp/B08N5WRWNW/ref=zg_bs''"
       and rejected = "[''4.5 out of 5 Stars'']"
       and t = "''Ergonomic mouse with USB receiver''" and rest = "[]"] m
  have "\<exists>info. extract_product_info example_urljoin mouse_block 1 = Some info \<and>
      summary info = (if length ''Ergonomic mouse with USB receiver'' \<le> 200
                      then ''Ergonomic mouse with USB receiver''
                      else take 200 ''Ergonomic mouse with USB receiver'' @ ''...'')"
    by blast
  then have a: "\<exists>info. extract_product_info example_urljoin mouse_block 1 = Some info \<and>
      summary info = ''Ergonomic mouse with USB receiver''"
    by simp
  have l: "find_a_href (long_block n) = Some ''/dp/B000000002'' \<and>
      example_urljoin base_url ''/dp/B000000002'' = Inr ''https://www.amazon.com/dp/B000000002''" for n
    by (simp add: long_block_def example_urljoin_def base_url_def)
  from summary_resolution
    [where uj = example_urljoin and b = "long_block 200" and r = 1
       and h = "''/dp/B000000002''" and pu = "''https://www.amazon.com/dp/B000000002''"]
    l [of 200]
  have "\<exists>info. extract_product_info example_urljoin (long_block 200) 1 = Some info \<and>
         summary info
           = (case find spec_summary_accepts (summary_candidates (long_block 200)) of
                None \<Rightarrow> ''No description available''
              | Some t \<Rightarrow> if length t \<le> 200 then t else take 200 t @ ''...'')"
    by blast
  then have b: "\<exists>info. extract_product_info example_urljoin (long_block 200) 1 = Some info \<and>
      summary info = replicate 200 CHR ''x''"
    by (simp add: example_long_candidates acc)
  from summary_resolution
    [where uj = example_urljoin and b = "long_block 201" and r = 1
       and h = "''/dp/B000000002''" and pu = "''https://www.amazon.com/dp/B000000002''"]
    l [of 201]
  have "\<exists>info. extract_product_info example_urljoin (long_block 201) 1 = Some info \<and>
         summary info
           = (case find spec_summary_accepts (summary_candidates (long_block 201)) of
                None \<Rightarrow> ''No description available''
              | Some t \<Rightarrow> if length t \<le> 200 then t else take 200 t @ ''...'')"
    by blast
  then have c: "\<exists>info. extract_product_info example_urljoin (long_block 201) 1 = Some info \<and>
      summary info = replicate 200 CHR ''x'' @ ''...''"
    by (simp add: example_long_candidates acc)
  have d0: "find_a_href lamp_block = Some ''/dp/B07XJ8C8F5'' \<and>
      example_urljoin base_url ''/dp/B07XJ8C8F5'' = Inr ''https://www.amazon.com/dp/B07XJ8C8F5'' \<and>
      list_all (\<lambda>c. \<not> spec_summary_accepts c) (summary_candidates lamp_block)"
    by (simp add: lamp_block_def example_urljoin_def base_url_def summary_candidates_def
        desc_selectors_def)
  from summary_resolution
    [where uj = example_urljoin and b = lamp_block and r = 1
       and h = "''/dp/B07XJ8C8F5''" and pu = "''https://www.amazon.com/dp/B07XJ8C8F5''"] d0
  have d: "\<exists>info. extract_product_info example_urljoin lamp_block 1 = Some info \<and>
      summary info = ''No description available''"
    by blast
  from a b c d show ?thesis by blast
qed


text \<open>
  Claim C3 against the code. The title loop returns the first accepted candidate when
  there is one. When no candidate is accepted it returns the text of the last candidate
  found, and the sentinel only when no selector finds an element: the variable is
  assigned before the test. For the block whose only title element holds \<^verbatim>\<open>ab\<close>,
  no candidate is accepted, the title is \<^verbatim>\<open>ab\<close> and not the sentinel, and the
  extractor returns the record.
\<close>

theorem title_loop_keeps_rejected_text:
  "title_loop b no_title title_selectors
     = (case find spec_title_accepts (title_candidates b) of
          None \<Rightarrow> last (no_title # title_candidates b)
        | Some t \<Rightarrow> t) \<and>
   title_candidates short_title_block = [''ab''] \<and>
   \<not> spec_title_accepts ''ab'' \<and>
   title_loop short_title_block no_title title_selectors = ''ab'' \<and>
   ''ab'' \<noteq> no_title \<and>
   map title (fst (scrape_category_products example_urljoin
      (net_status 200 (page_of [short_title_block])) ''/x'' 10)) = [''ab'']"
proof (intro conjI)
  show "title_loop b no_title title_selectors
     = (case find spec_title_accepts (title_candidates b) of
          None \<Rightarrow> last (no_title # title_candidates b)
        | Some t \<Rightarrow> t)"
    by (simp only: title_loop_find title_candidates_def)
  show "title_candidates short_title_block = [''ab'']"
    by (simp add: title_candidates_def title_selectors_def short_title_block_def)
  show "\<not> spec_title_accepts ''ab''" by (simp add: spec_title_accepts_def)
  show "title_loop short_title_block no_title title_selectors = ''ab''"
    by (simp add: title_selectors_def short_title_block_def)
  show "''ab'' \<noteq> no_title" by (simp add: no_title_def)
  show "map title (fst (scrape_category_products example_urljoin
      (net_status 200 (page_of [short_title_block])) ''/x'' 10)) = [''ab'']"
    by code_simp
qed

section \<open>Properties: the collecting loop\<close>

lemma collect_loop_step:
  "collect_loop uj limit acc ((i, b) # rest)
     = (if limit \<le> int (length (acc @ option_list (accepted_record uj (i, b))))
        then acc @ option_list (accepted_record uj (i, b))
        else collect_loop uj limit (acc @ option_list (accepted_record uj (i, b))) rest)"
  by (simp add: accepted_record_def Let_def split: option.splits)

lemma map_filter_Cons_option:
  "List.map_filter f (x # xs) = option_list (f x) @ List.map_filter f xs"
  by (cases "f x") simp_all

lemma collect_loop_prefix:
  "\<exists>n. collect_loop uj limit acc ibs = acc @ take n (List.map_filter (accepted_record uj) ibs)"
proof (induction ibs arbitrary: acc)
  case Nil
  then show ?case by simp
next
  case (Cons ib ibs)
  obtain i b where ib: "ib = (i, b)" by (cases ib)
  let ?new = "option_list (accepted_record uj (i, b))"
  show ?case
  proof (cases "limit \<le> int (length (acc @ ?new))")
    case True
    then have "collect_loop uj limit acc (ib # ibs) = acc @ ?new"
      unfolding ib collect_loop_step by simp
    also have "?new = take (length ?new) (List.map_filter (accepted_record uj) (ib # ibs))"
      unfolding map_filter_Cons_option by (simp add: ib)
    finally show ?thesis by blast
  next
    case False
    then have "collect_loop uj limit acc (ib # ibs) = collect_loop uj limit (acc @ ?new) ibs"
      unfolding ib collect_loop_step by simp
    also from Cons.IH [of "acc @ ?new"] obtain n where
      "collect_loop uj limit (acc @ ?new) ibs
         = (acc @ ?new) @ take n (List.map_filter (accepted_record uj) ibs)"
      by blast
    also have "(acc @ ?new) @ take n (List.map_filter (accepted_record uj) ibs)
        = acc @ take (length ?new + n) (List.map_filter (accepted_record uj) (ib # ibs))"
      unfolding map_filter_Cons_option by (simp add: ib)
    finally show ?thesis by blast
  qed
qed



lemma accepted_record_Some:
  "accepted_record uj (i, b) = Some info \<Longrightarrow>
     extract_product_info uj b (i + 1) = Some info \<and> title info \<noteq> no_title \<and>
     rank info = i + 1 \<and> find_a_href b \<noteq> None"
  by (auto simp: accepted_record_def extract_product_info_def split: option.splits sum.splits if_splits)

lemma accepted_enumerate:
  "info \<in> set (List.map_filter (accepted_record uj) (py_enumerate k blocks)) \<Longrightarrow>
     k + 1 \<le> rank info \<and> rank info \<le> k + int (length blocks) \<and>
     accepted_record uj (rank info - 1, blocks ! nat (rank info - 1 - k)) = Some info"
proof (induction blocks arbitrary: k)
  case Nil
  then show ?case by simp
next
  case (Cons b blocks)
  from Cons.prems consider
    "info \<in> set (option_list (accepted_record uj (k, b)))"
    | "info \<in> set (List.map_filter (accepted_record uj) (py_enumerate (k + 1) blocks))"
    unfolding py_enumerate.simps map_filter_Cons_option by auto
  then show ?case
  proof cases
    case 1
    then have a: "accepted_record uj (k, b) = Some info"
      by (cases "accepted_record uj (k, b)") simp_all
    with accepted_record_Some [OF a] show ?thesis by simp
  next
    case 2
    from Cons.IH [OF 2] have r: "k + 1 + 1 \<le> rank info" "rank info \<le> k + 1 + int (length blocks)"
      and a: "accepted_record uj (rank info - 1, blocks ! nat (rank info - 1 - (k + 1))) = Some info"
      by simp_all
    from r have "nat (rank info - 1 - k) = Suc (nat (rank info - 1 - (k + 1)))" by simp
    with a r show ?thesis by simp
  qed
qed

lemma accepted_enumerate_sorted:
  "sorted_wrt (<) (map rank (List.map_filter (accepted_record uj) (py_enumerate k blocks)))"
proof (induction blocks arbitrary: k)
  case Nil
  then show ?case by simp
next
  case (Cons b blocks)
  have later: "\<forall>info \<in> set (List.map_filter (accepted_record uj) (py_enumerate (k + 1) blocks)).
      k + 1 < rank info"
  proof
    fix info
    assume "info \<in> set (List.map_filter (accepted_record uj) (py_enumerate (k + 1) blocks))"
    from accepted_enumerate [OF this] show "k + 1 < rank info" by linarith
  qed
  show ?case
  proof (cases "accepted_record uj (k, b)")
    case None
    with Cons.IH [of "k + 1"] show ?thesis unfolding map_filter_Cons_option by simp
  next
    case (Some info)
    from accepted_record_Some [OF Some] have "rank info = k + 1" by simp
    with Some later Cons.IH [of "k + 1"] show ?thesis
      unfolding map_filter_Cons_option by simp
  qed
qed

lemma collect_products_subset:
  "set (collect_products uj limit blocks)
     \<subseteq> set (List.map_filter (accepted_record uj) (py_enumerate 0 blocks))"
proof -
  from collect_loop_prefix [of uj limit "[]" "py_enumerate 0 blocks"] obtain n where
    "collect_products uj limit blocks
       = take n (List.map_filter (accepted_record uj) (py_enumerate 0 blocks))"
    by (auto simp: collect_products_def)
  then show ?thesis by (simp add: set_take_subset)
qed

lemma collect_products_sorted: "sorted_wrt (<) (map rank (collect_products uj limit blocks))"
proof -
  from collect_loop_prefix [of uj limit "[]" "py_enumerate 0 blocks"] obtain n where
    "collect_products uj limit blocks
       = take n (List.map_filter (accepted_record uj) (py_enumerate 0 blocks))"
    by (auto simp: collect_products_def)
  then show ?thesis
    using accepted_enumerate_sorted [of uj 0 blocks] by (simp add: take_map [symmetric] sorted_wrt_take)
qed

lemma collect_products_member:
  assumes "info \<in> set (collect_products uj limit blocks)"
  shows "1 \<le> rank info \<and> rank info \<le> int (length blocks) \<and>
       extract_product_info uj (blocks ! nat (rank info - 1)) (rank info) = Some info \<and>
       find_a_href (blocks ! nat (rank info - 1)) \<noteq> None \<and> title info \<noteq> no_title"
proof -
  from assms collect_products_subset
  have "info \<in> set (List.map_filter (accepted_record uj) (py_enumerate 0 blocks))" by blast
  from accepted_enumerate [OF this] have r: "1 \<le> rank info" "rank info \<le> int (length blocks)"
    and a: "accepted_record uj (rank info - 1, blocks ! nat (rank info - 1)) = Some info"
    by simp_all
  from accepted_record_Some [OF a] r show ?thesis by simp
qed

lemma scrape_cases:
  "scrape_category_products uj net href limit = ([], []) \<and> (\<exists>e. uj base_url href = Inl e) \<or>
   (\<exists>full_url evs. uj base_url href = Inr full_url \<and>
      (\<exists>e. get_page net full_url 3 = (Inl e, evs) \<or> get_page net full_url 3 = (Inr None, evs)) \<and>
      scrape_category_products uj net href limit = ([], evs)) \<or>
   (\<exists>full_url resp evs. uj base_url href = Inr full_url \<and>
      get_page net full_url 3 = (Inr (Some resp), evs) \<and>
      scrape_category_products uj net href limit
        = (collect_products uj limit (locate_product_elements (content resp) limit), evs))"
proof (cases "uj base_url href")
  case (Inl e)
  then show ?thesis by (simp add: scrape_category_products_def)
next
  case (Inr full_url)
  obtain res evs where g: "get_page net full_url 3 = (res, evs)" by (cases "get_page net full_url 3")
  show ?thesis
  proof (cases res)
    case (Inl e)
    with Inr g show ?thesis by (simp add: scrape_category_products_def)
  next
    case r: (Inr ro)
    show ?thesis
    proof (cases ro)
      case None
      with Inr g r show ?thesis by (simp add: scrape_category_products_def)
    next
      case (Some resp)
      with Inr g r show ?thesis by (simp add: scrape_category_products_def)
    qed
  qed
qed

lemma example_collect:
  "collect_products example_urljoin 10 [anchorless_block, mouse_block, lamp_block]
     = [mouse_info, lamp_info]"
  by code_simp

text \<open>
  Claim C1, as the code has it. The rank of a returned record is the 1-based position of
  its block among the located blocks, the skipped ones included: the block at that
  position has an anchor and \<^verbatim>\<open>extract_product_info\<close> makes the record of it with
  that rank. A block with no anchor gives no record, and no returned record has the
  sentinel title. The ranks of the returned records are strictly increasing and at
  least 1; they need not be contiguous.
\<close>

theorem scrape_ranks_are_block_positions:
  "(\<forall>info \<in> set (collect_products uj limit blocks).
       1 \<le> rank info \<and> rank info \<le> int (length blocks) \<and>
       extract_product_info uj (blocks ! nat (rank info - 1)) (rank info) = Some info \<and>
       find_a_href (blocks ! nat (rank info - 1)) \<noteq> None \<and> title info \<noteq> no_title) \<and>
   sorted_wrt (<) (map rank (collect_products uj limit blocks)) \<and>
   (find_a_href b = None \<longrightarrow> extract_product_info uj b r = None) \<and>
   (fst (scrape_category_products uj net href limit) = [] \<or>
    (\<exists>full_url resp evs. uj base_url href = Inr full_url \<and>
       get_page net full_url 3 = (Inr (Some resp), evs) \<and>
       fst (scrape_category_products uj net href limit)
         = collect_products uj limit (locate_product_elements (content resp) limit))) \<and>
   sorted_wrt (<) (map rank (fst (scrape_category_products uj net href limit))) \<and>
   (\<forall>info \<in> set (fst (scrape_category_products uj net href limit)).
       title info \<noteq> no_title \<and> 1 \<le> rank info)"
proof (intro conjI ballI impI)
  fix info assume "info \<in> set (collect_products uj limit blocks)"
  from collect_products_member [OF this]
  show "1 \<le> rank info" and "rank info \<le> int (length blocks)"
    and "extract_product_info uj (blocks ! nat (rank info - 1)) (rank info) = Some info"
    and "find_a_href (blocks ! nat (rank info - 1)) \<noteq> None" and "title info \<noteq> no_title"
    by simp_all
next
  show "sorted_wrt (<) (map rank (collect_products uj limit blocks))"
    by (rule collect_products_sorted)
next
  assume "find_a_href b = None"
  then show "extract_product_info uj b r = None" by (simp add: extract_product_info_def)
next
  from scrape_cases [of uj net href limit]
  show "fst (scrape_category_products uj net href limit) = [] \<or>
    (\<exists>full_url resp evs. uj base_url href = Inr full_url \<and>
       get_page net full_url 3 = (Inr (Some resp), evs) \<and>
       fst (scrape_category_products uj net href limit)
         = collect_products uj limit (locate_product_elements (content resp) limit))"
    by auto
next
  from scrape_cases [of uj net href limit] collect_products_sorted [of uj limit]
  show "sorted_wrt (<) (map rank (fst (scrape_category_products uj net href limit)))"
    by auto
next
  fix info assume i: "info \<in> set (fst (scrape_category_products uj net href limit))"
  with scrape_cases [of uj net href limit] obtain blocks where
    "info \<in> set (collect_products uj limit blocks)" by auto
  from collect_products_member [OF this]
  show "title info \<noteq> no_title" and "1 \<le> rank info" by simp_all
qed

theorem scrape_ranks_are_block_positions_witness:
  "mouse_info \<in> set (collect_products example_urljoin 10 [anchorless_block, mouse_block, lamp_block]) \<and>
   rank mouse_info = 2 \<and>
   extract_product_info example_urljoin mouse_block 2 = Some mouse_info"
proof -
  have m: "mouse_info \<in> set (collect_products example_urljoin 10 [anchorless_block, mouse_block, lamp_block])"
    by (simp add: example_collect)
  have r: "rank mouse_info = 2" by (simp add: mouse_info_def)
  from scrape_ranks_are_block_positions
    [of example_urljoin 10 "[anchorless_block, mouse_block, lamp_block]"] m
  have "extract_product_info example_urljoin
          ([anchorless_block, mouse_block, lamp_block] ! nat (rank mouse_info - 1)) (rank mouse_info)
        = Some mouse_info"
    by blast
  then have "extract_product_info example_urljoin mouse_block 2 = Some mouse_info"
    by (simp add: r)
  with m r show ?thesis by simp
qed

text \<open>
  The claim as worded fails: with a first block that has no anchor, the two records
  returned have the ranks 2 and 3, not 1 and 2.
\<close>

theorem scrape_ranks_gap_counterexample:
  "map rank (fst (scrape_category_products example_urljoin
      (net_status 200 (page_of [anchorless_block, mouse_block, lamp_block])) ''/x'' 10)) = [2, 3] \<and>
   [2, 3] \<noteq> [1, 2 :: int]"
  by code_simp













text \<open>
  A negative limit is not a count of results and no caller passes one. There the slice
  \<^verbatim>\<open>elements[:-1]\<close> of two blocks keeps one, and its record is appended
  before \<^verbatim>\<open>len(products) >= limit\<close> is tested.
\<close>

lemma scrape_negative_limit_example:
  "length (fst (scrape_category_products example_urljoin
      (net_status 200 (page_of [mouse_block, lamp_block])) ''/x'' (- 1))) = 1"
  by code_simp

end
